theory Spec2Isabelle
  imports Complex_Main "HOL-Library.AList"
begin

unbundle bit_operations_syntax

section \<open>The pending-reply table of \<^verbatim>\<open>server/src/index.ts\<close>\<close>

text \<open>
  A phone number, a message text and a conversation id are lists of characters: the
  JavaScript string in an encoding that maps different strings to different lists and
  that has one character for each ASCII code unit, used for nothing else (UTF-8, with an
  unpaired surrogate encoded like a code point). The code compares these strings, joins
  them and applies \<^verbatim>\<open>replace(/[^0-9]/g, '')\<close>, which keeps the ASCII digits and drops
  every other code unit; all of this computes the same on the characters. The strings of
  the signature check, of which the code reads single code units, are lists of code
  units (section on the signature verification).
\<close>

subsection \<open>\<^verbatim>\<open>normalizePhoneNumber\<close> (index.ts, lines 41-44)\<close>

definition is_digit :: "char \<Rightarrow> bool" where
  "is_digit c = (c \<in> set ''0123456789'')"

text \<open>\<^verbatim>\<open>phone.replace(/[^0-9]/g, '')\<close>: every character outside \<^verbatim>\<open>0-9\<close> is dropped.\<close>

definition normalizePhoneNumber :: "string \<Rightarrow> string" where
  "normalizePhoneNumber phone = filter is_digit phone"

subsection \<open>Numbers and the delay of a timer\<close>

text \<open>
  A JavaScript number: a finite value, an infinity or \<^verbatim>\<open>NaN\<close>. A finite number is the
  rational it denotes (\<^verbatim>\<open>-0\<close> is \<^verbatim>\<open>0\<close>); the code does no arithmetic on the numbers it is
  given.
\<close>

datatype number = Finite rat | PlusInfinity | MinusInfinity | NaN

fun number_truthy :: "number \<Rightarrow> bool" where
  "number_truthy (Finite x) = (x \<noteq> 0)"
| "number_truthy NaN = False"
| "number_truthy PlusInfinity = True"
| "number_truthy MinusInfinity = True"

text \<open>
  \<^verbatim>\<open>setTimeout(handler, after)\<close> of Node: a delay that is not a number from 1 to
  2147483647 is replaced by 1, and the timer runs after the whole milliseconds of the
  delay.
\<close>

fun setTimeout_delay :: "number \<Rightarrow> nat" where
  "setTimeout_delay (Finite after) =
     (if 1 \<le> after \<and> after \<le> 2147483647 then nat \<lfloor>after\<rfloor> else 1)"
| "setTimeout_delay PlusInfinity = 1"
| "setTimeout_delay MinusInfinity = 1"
| "setTimeout_delay NaN = 1"

subsection \<open>Waiters: one promise and one timer per registration\<close>

text \<open>
  A registration (index.ts, lines 250-262) creates a promise, a timer and a table entry
  \<^verbatim>\<open>{resolve, reject, timeout}\<close> that holds the three of them. The model numbers the
  registrations: waiter \<open>w\<close> is the \<open>w\<close>-th promise created, with its own timer. A promise
  settles at most once: a later \<^verbatim>\<open>resolve\<close> or \<^verbatim>\<open>reject\<close> of a settled promise does nothing.
  The time of the settlement is recorded with the outcome.
\<close>

datatype outcome = Resolved string | Rejected string

record waiter =
  wkey :: string
  deadline :: nat
  timer_live :: bool
  settled :: "(nat \<times> outcome) option"

record mcp =
  pendingResponses :: "string \<rightharpoonup> nat"
  waiters :: "waiter list"

definition mcp_init :: mcp where
  "mcp_init = \<lparr>pendingResponses = Map.empty, waiters = []\<rparr>"

definition settle :: "nat \<Rightarrow> nat \<Rightarrow> outcome \<Rightarrow> mcp \<Rightarrow> mcp" where
  "settle w t out s =
     (if w < length (waiters s) \<and> settled (waiters s ! w) = None
      then s\<lparr>waiters := (waiters s)[w := (waiters s ! w)\<lparr>settled := Some (t, out)\<rparr>]\<rparr>
      else s)"

text \<open>\<^verbatim>\<open>clearTimeout(pending.timeout)\<close>, and a timer that has fired: the timer is no longer live.\<close>

definition clearTimeout :: "nat \<Rightarrow> mcp \<Rightarrow> mcp" where
  "clearTimeout w s =
     (if w < length (waiters s)
      then s\<lparr>waiters := (waiters s)[w := (waiters s ! w)\<lparr>timer_live := False\<rparr>]\<rparr>
      else s)"

definition outcome_of :: "mcp \<Rightarrow> nat \<Rightarrow> (nat \<times> outcome) option" where
  "outcome_of s w = (if w < length (waiters s) then settled (waiters s ! w) else None)"

definition timer_pending :: "mcp \<Rightarrow> nat \<Rightarrow> bool" where
  "timer_pending s w = (w < length (waiters s) \<and> timer_live (waiters s ! w))"

subsection \<open>Registration (index.ts, lines 247-262)\<close>

text \<open>
  The executor of \<^verbatim>\<open>new Promise\<close>: \<^verbatim>\<open>setTimeout(..., timeoutMs)\<close> at time \<open>now\<close>, then
  \<^verbatim>\<open>pendingResponses.set(normalizedUserPhone, {resolve, reject, timeout})\<close>. An entry
  already stored under the key is overwritten; nothing is done to its timer. Times are
  in milliseconds; the timer is due \<^verbatim>\<open>setTimeout\<close>'s delay after \<open>now\<close>.
\<close>

definition register :: "string \<Rightarrow> number \<Rightarrow> nat \<Rightarrow> mcp \<Rightarrow> nat \<times> mcp" where
  "register userPhoneNumber timeoutMs now s =
     (let normalizedUserPhone = normalizePhoneNumber userPhoneNumber;
          w = length (waiters s)
      in (w, \<lparr>pendingResponses = (pendingResponses s)(normalizedUserPhone \<mapsto> w),
               waiters = waiters s @
                 [\<lparr>wkey = normalizedUserPhone, deadline = now + setTimeout_delay timeoutMs,
                   timer_live = True, settled = None\<rparr>]\<rparr>))"

subsection \<open>The timeout handler (index.ts, lines 251-254)\<close>

text \<open>
  \<^verbatim>\<open>pendingResponses.delete(normalizedUserPhone); reject(new Error('Timeout ...'))\<close>,
  run by the timer of waiter \<open>w\<close> at its deadline. The key is the one the closure captured
  at registration; the handler does not look at who holds the entry.
\<close>

definition timeout_handler :: "nat \<Rightarrow> mcp \<Rightarrow> mcp" where
  "timeout_handler w s =
     (if w < length (waiters s)
      then settle w (deadline (waiters s ! w)) (Rejected ''Timeout waiting for user reply'')
             (clearTimeout w
               (s\<lparr>pendingResponses := (pendingResponses s)(wkey (waiters s ! w) := None)\<rparr>))
      else s)"

text \<open>
  The event loop: when the clock reaches \<open>t\<close>, every live timer whose deadline is at most
  \<open>t\<close> has fired, in the order of the deadlines (timers of one deadline in the order of
  their creation). A handler neither creates nor clears a timer, so the timers due are
  those of the state before the first of them runs.
\<close>

definition due :: "nat \<Rightarrow> mcp \<Rightarrow> nat list" where
  "due t s = sort_key (\<lambda>w. deadline (waiters s ! w))
     (filter (\<lambda>w. timer_live (waiters s ! w) \<and> deadline (waiters s ! w) \<le> t)
        [0..<length (waiters s)])"

definition run_timers :: "nat \<Rightarrow> mcp \<Rightarrow> mcp" where
  "run_timers t s = fold timeout_handler (due t s) s"


section \<open>JavaScript values\<close>

text \<open>
  What \<^verbatim>\<open>JSON.parse\<close> returns, and \<^verbatim>\<open>undefined\<close> for a property that is not there. An
  object is the list of its key/value pairs (the keys of a parsed object are distinct).
  Of a number the code only asks whether it is zero or \<^verbatim>\<open>NaN\<close>.
\<close>

datatype jsval =
    JUndefined
  | JNull
  | JBool bool
  | JNum number
  | JStr string
  | JArr "jsval list"
  | JObj "(string \<times> jsval) list"

datatype exn = TypeError | SyntaxError | Error string


text \<open>Reading a property of \<^verbatim>\<open>null\<close> or \<^verbatim>\<open>undefined\<close> throws a TypeError.\<close>

fun is_nullish :: "jsval \<Rightarrow> bool" where
  "is_nullish JUndefined = True"
| "is_nullish JNull = True"
| "is_nullish _ = False"

text \<open>
  \<^verbatim>\<open>v.k\<close> for a value that is not nullish. The code reads the properties \<^verbatim>\<open>object\<close>,
  \<^verbatim>\<open>entry\<close>, \<^verbatim>\<open>changes\<close>, \<^verbatim>\<open>value\<close>, \<^verbatim>\<open>messages\<close>, \<^verbatim>\<open>statuses\<close>, \<^verbatim>\<open>from\<close>, \<^verbatim>\<open>id\<close>,
  \<^verbatim>\<open>timestamp\<close>, \<^verbatim>\<open>type\<close>, \<^verbatim>\<open>text\<close>, \<^verbatim>\<open>body\<close>, \<^verbatim>\<open>button\<close> and \<^verbatim>\<open>status\<close>; none of them is a
  property of the prototype of a string, number, boolean, array or object, so a value
  other than an object with that key gives \<^verbatim>\<open>undefined\<close>.
\<close>

fun js_get :: "jsval \<Rightarrow> string \<Rightarrow> jsval" where
  "js_get (JObj kvs) k = (case map_of kvs k of Some v \<Rightarrow> v | None \<Rightarrow> JUndefined)"
| "js_get _ k = JUndefined"

fun truthy :: "jsval \<Rightarrow> bool" where
  "truthy JUndefined = False"
| "truthy JNull = False"
| "truthy (JBool b) = b"
| "truthy (JNum n) = number_truthy n"
| "truthy (JStr s) = (s \<noteq> [])"
| "truthy (JArr xs) = True"
| "truthy (JObj kvs) = True"

text \<open>
  \<^verbatim>\<open>for (const x of v)\<close>: an array gives its elements, a string its characters (each a
  string of its own), anything else is not iterable. The characters of a string have no
  property the loop bodies read, so how a string splits into characters does not matter
  to them.
\<close>

fun iterate :: "jsval \<Rightarrow> exn + jsval list" where
  "iterate (JArr xs) = Inr xs"
| "iterate (JStr s) = Inr (map (\<lambda>c. JStr [c]) s)"
| "iterate _ = Inl TypeError"

text \<open>\<^verbatim>\<open>v || []\<close>\<close>

definition or_empty :: "jsval \<Rightarrow> jsval" where
  "or_empty v = (if truthy v then v else JArr [])"

text \<open>
  \<^verbatim>\<open>ToString\<close>, as a template literal \<^verbatim>\<open>`${v}`\<close> and \<^verbatim>\<open>parseInt(v, 10)\<close> apply it,
  throws a TypeError for an object whose own \<^verbatim>\<open>toString\<close> property is not callable (every
  parsed value is not callable), and for an array with such an element, which
  \<^verbatim>\<open>Array.prototype.join\<close> converts in turn. It throws for nothing else.
\<close>

fun toString_throws :: "jsval \<Rightarrow> bool" where
  "toString_throws (JObj kvs) = (''toString'' \<in> fst ` set kvs)"
| "toString_throws (JArr xs) = (\<exists>x \<in> set xs. toString_throws x)"
| "toString_throws _ = False"

text \<open>A loop whose body may throw: the exception ends the loop, the state stays as it is then.\<close>

fun for_each :: "('a \<Rightarrow> 's \<Rightarrow> exn option \<times> 's) \<Rightarrow> 'a list \<Rightarrow> 's \<Rightarrow> exn option \<times> 's" where
  "for_each f [] s = (None, s)"
| "for_each f (x # xs) s =
     (case f x s of (Some e, s') \<Rightarrow> (Some e, s') | (None, s') \<Rightarrow> for_each f xs s')"

subsection \<open>The callback of \<^verbatim>\<open>onMessageReceived\<close> (index.ts, lines 79-98)\<close>

text \<open>
  \<^verbatim>\<open>text\<close> is a string when the callback is called (message-manager.ts, line 337).
  \<^verbatim>\<open>normalizePhoneNumber(from)\<close> calls \<^verbatim>\<open>from.replace\<close>, which is a function only when
  \<^verbatim>\<open>from\<close> is a string; the call throws a TypeError otherwise. \<open>now\<close> is the time of the
  call, recorded with the settlement.
\<close>

type_synonym 'c callback = "jsval \<Rightarrow> string \<Rightarrow> string \<Rightarrow> 'c \<Rightarrow> exn option \<times> 'c"

fun onMessageReceived :: "nat \<Rightarrow> mcp callback" where
  "onMessageReceived now (JStr from) text conversationId s =
     (let normalizedFrom = normalizePhoneNumber from in
      case pendingResponses s normalizedFrom of
        Some pending \<Rightarrow>
          (None, settle pending now (Resolved text)
                   ((clearTimeout pending s)
                      \<lparr>pendingResponses := (pendingResponses s)(normalizedFrom := None)\<rparr>))
      | None \<Rightarrow> (None, s))"
| "onMessageReceived now from text conversationId s = (Some TypeError, s)"

declare onMessageReceived.simps [simp del]

subsection \<open>A run of the process, seen from the table\<close>

text \<open>
  What happens to the table, with the time at which it happens: a tool call that waits
  for a reply (the registration above, with the timeout it hands to \<^verbatim>\<open>setTimeout\<close>), an
  inbound message handed to the callback, or nothing. The timers due at that time have
  run before.
\<close>

datatype event = Wait string number | Inbound jsval string | Idle

fun step :: "nat \<times> event \<Rightarrow> mcp \<Rightarrow> mcp" where
  "step (t, Wait userPhoneNumber timeoutMs) s = snd (register userPhoneNumber timeoutMs t (run_timers t s))"
| "step (t, Inbound from text) s = snd (onMessageReceived t from text [] (run_timers t s))"
| "step (t, Idle) s = run_timers t s"

definition exec :: "(nat \<times> event) list \<Rightarrow> mcp \<Rightarrow> mcp" where
  "exec evs s = fold step evs s"


section \<open>The conversation registry of \<^verbatim>\<open>server/src/message-manager.ts\<close>\<close>

datatype role = Claude | User

text \<open>
  A time stamp is a reading of \<^verbatim>\<open>Date.now()\<close> or, for an inbound message, the number
  \<^verbatim>\<open>parseInt(message.timestamp, 10) * 1000\<close>, which is kept as the value it is computed
  from: nothing in the code reads it back. The readings of \<^verbatim>\<open>Date.now()\<close> within one
  handler are taken at one instant \<open>now\<close>.
\<close>

datatype instant = At nat | ParsedSeconds jsval

record history_entry =
  role :: role
  msg_text :: string
  timestamp :: instant

record ConversationState =
  conversationId :: string
  userPhoneNumber :: jsval
  messageHistory :: "history_entry list"
  startTime :: instant
  lastMessageAt :: instant
  active :: bool

text \<open>
  \<^verbatim>\<open>activeConversations\<close> is a \<^verbatim>\<open>Map\<close>, which keeps its keys in the order of their
  insertion: an association list, where \<^verbatim>\<open>set\<close> replaces the value of a key in place or
  appends a new pair. \<^verbatim>\<open>phoneToConversationId\<close> is only read by key.
\<close>

record manager =
  activeConversations :: "(string \<times> ConversationState) list"
  phoneToConversationId :: "jsval \<rightharpoonup> string"
  currentConversationId :: nat

definition manager_init :: manager where
  "manager_init = \<lparr>activeConversations = [], phoneToConversationId = Map.empty,
                     currentConversationId = 0\<rparr>"

text \<open>
  A \<^verbatim>\<open>Map\<close> compares strings, numbers, booleans, \<^verbatim>\<open>null\<close> and \<^verbatim>\<open>undefined\<close> by value and
  an array or object by identity. An array or object that arrives in a webhook is a new
  one, so it is never found as a key, and what is stored under it is never read.
\<close>

fun by_identity :: "jsval \<Rightarrow> bool" where
  "by_identity (JArr xs) = True"
| "by_identity (JObj kvs) = True"
| "by_identity _ = False"

definition phone_get :: "manager \<Rightarrow> jsval \<Rightarrow> string option" where
  "phone_get m phoneNumber =
     (if by_identity phoneNumber then None else phoneToConversationId m phoneNumber)"

definition phone_set :: "jsval \<Rightarrow> string \<Rightarrow> (jsval \<rightharpoonup> string) \<Rightarrow> (jsval \<rightharpoonup> string)" where
  "phone_set phoneNumber cid tbl = (if by_identity phoneNumber then tbl else tbl(phoneNumber \<mapsto> cid))"

text \<open>The decimal digits of a number, as a template literal prints it.\<close>

definition digit_char :: "nat \<Rightarrow> char" where
  "digit_char d = ''0123456789'' ! d"

function show_nat :: "nat \<Rightarrow> string" where
  "show_nat n = (if n < 10 then [digit_char n] else show_nat (n div 10) @ [digit_char (n mod 10)])"
  by pat_completeness auto
termination
  by (relation "measure id") auto

declare show_nat.simps [simp del]

subsection \<open>\<^verbatim>\<open>getOrCreateConversation\<close> (message-manager.ts, lines 163-192)\<close>

definition find_active :: "manager \<Rightarrow> jsval \<Rightarrow> string option" where
  "find_active m phoneNumber =
     (case phone_get m phoneNumber of
        None \<Rightarrow> None
      | Some cid \<Rightarrow>
          (if cid = [] then None
           else (case map_of (activeConversations m) cid of
                   None \<Rightarrow> None
                 | Some state \<Rightarrow> (if active state then Some cid else None))))"

definition getOrCreateConversation :: "jsval \<Rightarrow> nat \<Rightarrow> manager \<Rightarrow> string \<times> manager" where
  "getOrCreateConversation phoneNumber now m =
     (case find_active m phoneNumber of
        Some cid \<Rightarrow> (cid, m)
      | None \<Rightarrow>
          (let n = currentConversationId m + 1;
               cid = ''conv-'' @ show_nat n @ ''-'' @ show_nat now;
               state = \<lparr>conversationId = cid, userPhoneNumber = phoneNumber,
                        messageHistory = [], startTime = At now, lastMessageAt = At now,
                        active = True\<rparr>
           in (cid, \<lparr>activeConversations = AList.update cid state (activeConversations m),
                     phoneToConversationId = phone_set phoneNumber cid (phoneToConversationId m),
                     currentConversationId = n\<rparr>)))"

text \<open>
  \<^verbatim>\<open>state.messageHistory.push(e); state.lastMessageAt = t\<close> on the state object stored
  under \<open>cid\<close> (it is there: \<^verbatim>\<open>getOrCreateConversation\<close> has just returned \<open>cid\<close>).
\<close>

definition push_message :: "string \<Rightarrow> history_entry \<Rightarrow> instant \<Rightarrow> manager \<Rightarrow> manager" where
  "push_message cid e t m =
     m\<lparr>activeConversations :=
         AList.map_entry cid
           (\<lambda>state. state\<lparr>messageHistory := messageHistory state @ [e], lastMessageAt := t\<rparr>)
           (activeConversations m)\<rparr>"

definition history_of :: "manager \<Rightarrow> string \<Rightarrow> history_entry list" where
  "history_of m cid =
     (case map_of (activeConversations m) cid of Some state \<Rightarrow> messageHistory state | None \<Rightarrow> [])"

definition lastMessageAt_of :: "manager \<Rightarrow> string \<Rightarrow> instant option" where
  "lastMessageAt_of m cid = map_option lastMessageAt (map_of (activeConversations m) cid)"

definition getActiveConversations :: "manager \<Rightarrow> string list" where
  "getActiveConversations m = map fst (activeConversations m)"

subsection \<open>The messaging provider\<close>

text \<open>
  The network calls of the provider are inputs of the model: what \<^verbatim>\<open>sendMessage(to,
  message)\<close> returns (the message id) or throws, and whether \<^verbatim>\<open>markAsRead(id)\<close> throws.
\<close>

record provider =
  provider_sendMessage :: "string \<Rightarrow> string \<Rightarrow> exn + string"
  provider_markAsRead :: "jsval \<Rightarrow> exn + unit"

subsection \<open>\<^verbatim>\<open>sendMessage\<close> (message-manager.ts, lines 122-151)\<close>

definition sendMessage ::
  "provider \<Rightarrow> string \<Rightarrow> string \<Rightarrow> nat \<Rightarrow> manager \<Rightarrow> (exn + string \<times> string) \<times> manager" where
  "sendMessage whatsapp configUserPhoneNumber message now m =
     (case getOrCreateConversation (JStr configUserPhoneNumber) now m of
        (cid, m1) \<Rightarrow>
          (case provider_sendMessage whatsapp configUserPhoneNumber message of
             Inl error \<Rightarrow> (Inl error, m1)
           | Inr messageId \<Rightarrow>
               (Inr (cid, messageId),
                push_message cid \<lparr>role = Claude, msg_text = message, timestamp = At now\<rparr>
                  (At now) m1)))"

section \<open>The tool \<^verbatim>\<open>send_message\<close> (index.ts, lines 208-295)\<close>

text \<open>
  The arguments, typed as the tool's input schema declares them. An argument that is
  not given reads as \<^verbatim>\<open>undefined\<close>, which \<^verbatim>\<open>||\<close> and \<^verbatim>\<open>!\<close> treat like the empty string,
  \<^verbatim>\<open>false\<close> and \<^verbatim>\<open>0\<close>: it is that value here.
\<close>

record send_message_args =
  message :: string
  wait_for_reply :: bool
  timeout_ms :: number








section \<open>HMAC-SHA256\<close>

text \<open>
  \<^verbatim>\<open>createHmac('sha256', appSecret).update(body).digest('hex')\<close> of Node's \<^verbatim>\<open>crypto\<close>:
  SHA-256 as in FIPS 180-4 and HMAC as in RFC 2104. A 32-bit word is an integer below
  \<open>2 ^ 32\<close>, with the wrap-around written out; a byte is an integer below 256.
\<close>

definition K256 :: "int list" where
  "K256 = [
  0x428A2F98, 0x71374491, 0xB5C0FBCF, 0xE9B5DBA5, 0x3956C25B, 0x59F111F1, 0x923F82A4, 0xAB1C5ED5,
  0xD807AA98, 0x12835B01, 0x243185BE, 0x550C7DC3, 0x72BE5D74, 0x80DEB1FE, 0x9BDC06A7, 0xC19BF174,
  0xE49B69C1, 0xEFBE4786, 0x0FC19DC6, 0x240CA1CC, 0x2DE92C6F, 0x4A7484AA, 0x5CB0A9DC, 0x76F988DA,
  0x983E5152, 0xA831C66D, 0xB00327C8, 0xBF597FC7, 0xC6E00BF3, 0xD5A79147, 0x06CA6351, 0x14292967,
  0x27B70A85, 0x2E1B2138, 0x4D2C6DFC, 0x53380D13, 0x650A7354, 0x766A0ABB, 0x81C2C92E, 0x92722C85,
  0xA2BFE8A1, 0xA81A664B, 0xC24B8B70, 0xC76C51A3, 0xD192E819, 0xD6990624, 0xF40E3585, 0x106AA070,
  0x19A4C116, 0x1E376C08, 0x2748774C, 0x34B0BCB5, 0x391C0CB3, 0x4ED8AA4A, 0x5B9CCA4F, 0x682E6FF3,
  0x748F82EE, 0x78A5636F, 0x84C87814, 0x8CC70208, 0x90BEFFFA, 0xA4506CEB, 0xBEF9A3F7, 0xC67178F2]"

definition H0 :: "int \<times> int \<times> int \<times> int \<times> int \<times> int \<times> int \<times> int" where
  "H0 = (0x6A09E667, 0xBB67AE85, 0x3C6EF372, 0xA54FF53A,
         0x510E527F, 0x9B05688C, 0x1F83D9AB, 0x5BE0CD19)"

definition add32 :: "int \<Rightarrow> int \<Rightarrow> int" where
  "add32 x y = (x + y) AND 0xFFFFFFFF"

definition rotr :: "nat \<Rightarrow> int \<Rightarrow> int" where
  "rotr n x = drop_bit n x OR (push_bit (32 - n) x AND 0xFFFFFFFF)"

definition Ch :: "int \<Rightarrow> int \<Rightarrow> int \<Rightarrow> int" where
  "Ch x y z = (x AND y) XOR ((x XOR 0xFFFFFFFF) AND z)"

definition Maj :: "int \<Rightarrow> int \<Rightarrow> int \<Rightarrow> int" where
  "Maj x y z = (x AND y) XOR (x AND z) XOR (y AND z)"

definition bsig0 :: "int \<Rightarrow> int" where
  "bsig0 x = rotr 2 x XOR rotr 13 x XOR rotr 22 x"

definition bsig1 :: "int \<Rightarrow> int" where
  "bsig1 x = rotr 6 x XOR rotr 11 x XOR rotr 25 x"

definition ssig0 :: "int \<Rightarrow> int" where
  "ssig0 x = rotr 7 x XOR rotr 18 x XOR drop_bit 3 x"

definition ssig1 :: "int \<Rightarrow> int" where
  "ssig1 x = rotr 17 x XOR rotr 19 x XOR drop_bit 10 x"

type_synonym hstate = "int \<times> int \<times> int \<times> int \<times> int \<times> int \<times> int \<times> int"

fun round_step :: "int \<Rightarrow> int \<Rightarrow> hstate \<Rightarrow> hstate" where
  "round_step k w (a, b, c, d, e, f, g, h) =
     (let t1 = add32 (add32 (add32 (add32 h (bsig1 e)) (Ch e f g)) k) w;
          t2 = add32 (bsig0 a) (Maj a b c)
      in (add32 t1 t2, a, b, c, add32 d t1, e, f, g))"

text \<open>
  The message schedule as a window of sixteen words: \<open>win ! 0\<close> is the word of the
  current round, and the word sixteen rounds ahead is appended.
\<close>

definition next_w :: "int list \<Rightarrow> int" where
  "next_w win = add32 (add32 (add32 (ssig1 (win ! 14)) (win ! 9)) (ssig0 (win ! 1))) (win ! 0)"

fun rounds :: "int list \<Rightarrow> int list \<Rightarrow> hstate \<Rightarrow> hstate" where
  "rounds [] win h = h"
| "rounds (k # ks) win h = rounds ks (tl win @ [next_w win]) (round_step k (win ! 0) h)"

fun hadd :: "hstate \<Rightarrow> hstate \<Rightarrow> hstate" where
  "hadd (a, b, c, d, e, f, g, h) (a', b', c', d', e', f', g', h') =
     (add32 a a', add32 b b', add32 c c', add32 d d',
      add32 e e', add32 f f', add32 g g', add32 h h')"

definition compress :: "hstate \<Rightarrow> int list \<Rightarrow> hstate" where
  "compress h blk = hadd h (rounds K256 blk h)"

fun be32 :: "int list \<Rightarrow> int list" where
  "be32 (a # b # c # d # r) = (push_bit 24 a OR push_bit 16 b OR push_bit 8 c OR d) # be32 r"
| "be32 _ = []"

fun blocks :: "int list \<Rightarrow> hstate \<Rightarrow> hstate" where
  "blocks [] h = h"
| "blocks (w # ws) h = blocks (drop 16 (w # ws)) (compress h (take 16 (w # ws)))"

definition pad :: "int list \<Rightarrow> int list" where
  "pad m = (let l = length m; n = int (8 * l) in
     m @ [0x80] @ replicate ((119 - l mod 64) mod 64) 0 @
     map (\<lambda>i. drop_bit (8 * i) n AND 0xFF) [7, 6, 5, 4, 3, 2, 1, 0])"

fun hwords :: "hstate \<Rightarrow> int list" where
  "hwords (a, b, c, d, e, f, g, h) = [a, b, c, d, e, f, g, h]"

definition unbe32 :: "int \<Rightarrow> int list" where
  "unbe32 w = [drop_bit 24 w AND 0xFF, drop_bit 16 w AND 0xFF, drop_bit 8 w AND 0xFF, w AND 0xFF]"

definition sha256 :: "int list \<Rightarrow> int list" where
  "sha256 m = concat (map unbe32 (hwords (blocks (be32 (pad m)) H0)))"

definition hmac_sha256 :: "int list \<Rightarrow> int list \<Rightarrow> int list" where
  "hmac_sha256 key m =
    (let k0 = (if length key > 64 then sha256 key else key);
         k = k0 @ replicate (64 - length k0) 0
     in sha256 (map (\<lambda>b. b XOR 0x5c) k @ sha256 (map (\<lambda>b. b XOR 0x36) k @ m)))"

section \<open>Signature verification of \<^verbatim>\<open>server/src/webhook-security.ts\<close>\<close>

subsection \<open>Strings as code units\<close>

text \<open>
  The secret, the signature header and the body are JavaScript strings: sequences of
  UTF-16 code units, each a number below 65536. \<open>units\<close> gives the code units of a
  literal of ASCII characters.
\<close>

type_synonym js_string = "int list"

definition units :: "string \<Rightarrow> js_string" where
  "units s = map of_char s"

text \<open>
  The bytes that \<^verbatim>\<open>createHmac(.., key)\<close> and \<^verbatim>\<open>update(data)\<close> take of a string: its UTF-8
  encoding. A high surrogate followed by a low surrogate is one code point of four
  bytes; a surrogate that is not part of such a pair is encoded as U+FFFD.
\<close>

fun utf8_encode :: "js_string \<Rightarrow> int list" where
  "utf8_encode [] = []"
| "utf8_encode (u # us) =
     (if u < 0x80 then u # utf8_encode us
      else if u < 0x800
        then (0xC0 OR drop_bit 6 u) # (0x80 OR (u AND 0x3F)) # utf8_encode us
      else if 0xD800 \<le> u \<and> u < 0xDC00
        then (case us of
                [] \<Rightarrow> [0xEF, 0xBF, 0xBD]
              | v # vs \<Rightarrow>
                  (if 0xDC00 \<le> v \<and> v < 0xE000
                   then (let cp = 0x10000 + push_bit 10 (u AND 0x3FF) + (v AND 0x3FF)
                         in (0xF0 OR drop_bit 18 cp) # (0x80 OR (drop_bit 12 cp AND 0x3F))
                            # (0x80 OR (drop_bit 6 cp AND 0x3F)) # (0x80 OR (cp AND 0x3F))
                            # utf8_encode vs)
                   else 0xEF # 0xBF # 0xBD # utf8_encode us))
      else if 0xDC00 \<le> u \<and> u < 0xE000
        then 0xEF # 0xBF # 0xBD # utf8_encode us
      else (0xE0 OR drop_bit 12 u) # (0x80 OR (drop_bit 6 u AND 0x3F))
           # (0x80 OR (u AND 0x3F)) # utf8_encode us)"

text \<open>\<^verbatim>\<open>digest('hex')\<close>: two lower-case hexadecimal digits for each byte.\<close>

definition hex_digit :: "nat \<Rightarrow> int" where
  "hex_digit d = of_char (''0123456789abcdef'' ! d)"

definition hex_encode :: "int list \<Rightarrow> js_string" where
  "hex_encode bs = concat (map (\<lambda>b. [hex_digit (nat b div 16), hex_digit (nat b mod 16)]) bs)"

text \<open>
  \<^verbatim>\<open>Buffer.from(s, 'hex')\<close> of Node: the code units are read in pairs, each by its low
  byte, which is a digit \<^verbatim>\<open>0-9\<close>, \<^verbatim>\<open>a-f\<close> or \<^verbatim>\<open>A-F\<close> or no digit; the data ends before the
  first pair that is not two digits, and a single code unit at the end is left out.
\<close>

definition hexval :: "int \<Rightarrow> int option" where
  "hexval u =
     (let c = u mod 256 in
      if 48 \<le> c \<and> c \<le> 57 then Some (c - 48)
      else if 97 \<le> c \<and> c \<le> 102 then Some (c - 87)
      else if 65 \<le> c \<and> c \<le> 70 then Some (c - 55)
      else None)"

fun hex_decode :: "js_string \<Rightarrow> int list" where
  "hex_decode (a # b # r) =
     (case hexval a of
        None \<Rightarrow> []
      | Some x \<Rightarrow> (case hexval b of None \<Rightarrow> [] | Some y \<Rightarrow> (16 * x + y) # hex_decode r))"
| "hex_decode _ = []"

subsection \<open>\<^verbatim>\<open>timingSafeEqual\<close> (webhook-security.ts, lines 67-78)\<close>

definition timingSafeEqual :: "int list \<Rightarrow> int list \<Rightarrow> bool" where
  "timingSafeEqual a b =
     (if length a \<noteq> length b then False
      else foldl (\<lambda>result (x, y). result OR (x XOR y)) 0 (zip a b) = 0)"

subsection \<open>\<^verbatim>\<open>validateMetaWhatsAppSignature\<close> (webhook-security.ts, lines 24-61)\<close>

definition validateMetaWhatsAppSignature :: "js_string \<Rightarrow> js_string option \<Rightarrow> js_string \<Rightarrow> bool" where
  "validateMetaWhatsAppSignature appSecret signature body =
     (case signature of
        None \<Rightarrow> False
      | Some sg \<Rightarrow>
          (if sg = [] then False
           else if take 7 sg \<noteq> units ''sha256='' then False
           else (let receivedSignature = drop 7 sg;
                     expectedSignature =
                       hex_encode (hmac_sha256 (utf8_encode appSecret) (utf8_encode body))
                 in timingSafeEqual (hex_decode receivedSignature) (hex_decode expectedSignature))))"

section \<open>The webhook of \<^verbatim>\<open>server/src/message-manager.ts\<close>\<close>

subsection \<open>\<^verbatim>\<open>handleMessageStatus\<close> (lines 367-375)\<close>

text \<open>It reads three properties of the status and prints them; it changes nothing.\<close>

definition handleMessageStatus :: "jsval \<Rightarrow> exn option" where
  "handleMessageStatus status =
     (if is_nullish status then Some TypeError
      else if toString_throws (js_get status ''id'') \<or> toString_throws (js_get status ''status'')
              \<or> toString_throws (js_get status ''timestamp'')
           then Some TypeError
      else None)"

subsection \<open>\<^verbatim>\<open>handleIncomingMessage\<close> (lines 317-362)\<close>

text \<open>\<^verbatim>\<open>v?.k\<close>\<close>

definition js_get_opt :: "jsval \<Rightarrow> string \<Rightarrow> jsval" where
  "js_get_opt v k = (if is_nullish v then JUndefined else js_get v k)"

text \<open>The text of a message of kind \<^verbatim>\<open>text\<close> or \<^verbatim>\<open>button\<close> (lines 327-335), if it has one.\<close>

definition extract_text :: "jsval \<Rightarrow> jsval option" where
  "extract_text msg =
     (if js_get msg ''type'' = JStr ''text'' \<and> truthy (js_get_opt (js_get msg ''text'') ''body'')
      then Some (js_get (js_get msg ''text'') ''body'')
      else if js_get msg ''type'' = JStr ''button''
              \<and> truthy (js_get_opt (js_get msg ''button'') ''text'')
      then Some (js_get (js_get msg ''button'') ''text'')
      else None)"

text \<open>
  The steps that can throw, in the order of the code: \<^verbatim>\<open>message.from\<close> (line 318),
  \<^verbatim>\<open>parseInt(message.timestamp, 10)\<close> (line 320), the template literals that print
  \<^verbatim>\<open>from\<close> (line 324) and, for an unsupported kind, \<^verbatim>\<open>message.type\<close> (line 333),
  \<^verbatim>\<open>text.substring\<close> (line 337), which is a function only when \<^verbatim>\<open>text\<close> is a string, and
  the callback (line 360). What \<^verbatim>\<open>markAsRead\<close> throws is caught (lines 344-348). The
  steps of the handler are taken at one instant \<open>now\<close>: the call of \<^verbatim>\<open>markAsRead\<close> is
  taken to settle before anything else happens to the registry or the table.
\<close>

definition handleIncomingMessage ::
  "provider \<Rightarrow> 'c callback option \<Rightarrow> nat \<Rightarrow> jsval \<Rightarrow> manager \<times> 'c \<Rightarrow> exn option \<times> manager \<times> 'c" where
  "handleIncomingMessage whatsapp onMessageReceivedCallback now msg st =
     (case st of (m, c) \<Rightarrow>
        (if is_nullish msg then (Some TypeError, m, c)
         else (let from = js_get msg ''from'';
                   messageId = js_get msg ''id'';
                   time = ParsedSeconds (js_get msg ''timestamp'')
               in if toString_throws (js_get msg ''timestamp'') then (Some TypeError, m, c)
                  else if toString_throws from then (Some TypeError, m, c)
                  else (case extract_text msg of
                          None \<Rightarrow>
                            (if toString_throws (js_get msg ''type'') then (Some TypeError, m, c)
                             else (None, m, c))
                        | Some (JStr text) \<Rightarrow>
                            (case getOrCreateConversation from now m of
                               (cid, m1) \<Rightarrow>
                                 (let marked = (case provider_markAsRead whatsapp messageId of
                                                  Inl error \<Rightarrow> () | Inr ok \<Rightarrow> ());
                                      m2 = push_message cid
                                             \<lparr>role = User, msg_text = text, timestamp = time\<rparr> time m1
                                  in (case onMessageReceivedCallback of
                                        None \<Rightarrow> (None, m2, c)
                                      | Some callback \<Rightarrow>
                                          (case callback from text cid c of
                                             (thrown, c') \<Rightarrow> (thrown, m2, c')))))
                        | Some other \<Rightarrow> (Some TypeError, m, c)))))"

subsection \<open>\<^verbatim>\<open>processWhatsAppEvent\<close> (lines 285-312)\<close>

definition process_change ::
  "provider \<Rightarrow> 'c callback option \<Rightarrow> nat \<Rightarrow> jsval \<Rightarrow> manager \<times> 'c \<Rightarrow> exn option \<times> manager \<times> 'c" where
  "process_change whatsapp cb now change st =
     (if is_nullish change then (Some TypeError, st)
      else (let v = js_get change ''value'' in
            if is_nullish v then (Some TypeError, st)
            else (case (if truthy (js_get v ''messages'')
                        then (case iterate (js_get v ''messages'') of
                                Inl error \<Rightarrow> (Some error, st)
                              | Inr msgs \<Rightarrow> for_each (handleIncomingMessage whatsapp cb now) msgs st)
                        else (None, st)) of
                    (Some error, st') \<Rightarrow> (Some error, st')
                  | (None, st') \<Rightarrow>
                      (if truthy (js_get v ''statuses'')
                       then (case iterate (js_get v ''statuses'') of
                               Inl error \<Rightarrow> (Some error, st')
                             | Inr statuses \<Rightarrow>
                                 for_each (\<lambda>status s. (handleMessageStatus status, s)) statuses st')
                       else (None, st')))))"

definition process_entry ::
  "provider \<Rightarrow> 'c callback option \<Rightarrow> nat \<Rightarrow> jsval \<Rightarrow> manager \<times> 'c \<Rightarrow> exn option \<times> manager \<times> 'c" where
  "process_entry whatsapp cb now entry st =
     (if is_nullish entry then (Some TypeError, st)
      else (case iterate (or_empty (js_get entry ''changes'')) of
              Inl error \<Rightarrow> (Some error, st)
            | Inr changes \<Rightarrow> for_each (process_change whatsapp cb now) changes st))"

definition processWhatsAppEvent ::
  "provider \<Rightarrow> 'c callback option \<Rightarrow> nat \<Rightarrow> jsval \<Rightarrow> manager \<times> 'c \<Rightarrow> exn option \<times> manager \<times> 'c" where
  "processWhatsAppEvent whatsapp cb now event st =
     (if is_nullish event then (Some TypeError, st)
      else if js_get event ''object'' \<noteq> JStr ''whatsapp_business_account'' then (None, st)
      else (case iterate (or_empty (js_get event ''entry'')) of
              Inl error \<Rightarrow> (Some error, st)
            | Inr entries \<Rightarrow> for_each (process_entry whatsapp cb now) entries st))"

subsection \<open>The POST branch of \<^verbatim>\<open>handleWhatsAppWebhook\<close> (lines 207-238)\<close>

text \<open>
  \<^verbatim>\<open>JSON.parse\<close> is an input of the model: the value it returns for a body, or the
  SyntaxError it throws. The answer is the status code and the text of the response.
\<close>

datatype http_response = Response nat string

definition handleWhatsAppWebhook_POST ::
  "js_string \<Rightarrow> provider \<Rightarrow> 'c callback option \<Rightarrow> (js_string \<Rightarrow> exn + jsval) \<Rightarrow> nat \<Rightarrow>
   js_string option \<Rightarrow> js_string \<Rightarrow> manager \<times> 'c \<Rightarrow> http_response \<times> manager \<times> 'c" where
  "handleWhatsAppWebhook_POST appSecret whatsapp cb JSON_parse now signature body st =
     (if \<not> validateMetaWhatsAppSignature appSecret signature body
      then (Response 401 ''Invalid signature'', st)
      else (case JSON_parse body of
              Inl error \<Rightarrow> (Response 400 ''Invalid request'', st)
            | Inr event \<Rightarrow>
                (case processWhatsAppEvent whatsapp cb now event st of
                   (Some error, st') \<Rightarrow> (Response 400 ''Invalid request'', st')
                 | (None, st') \<Rightarrow> (Response 200 ''OK'', st'))))"

section \<open>Events of the provider's format\<close>

text \<open>
  The format the code documents (message-manager.ts, lines 272-283), as conditions on a
  parsed value. Properties that the code does not read may be there or not.
\<close>

fun is_string :: "jsval \<Rightarrow> bool" where
  "is_string (JStr s) = True"
| "is_string _ = False"

fun is_object :: "jsval \<Rightarrow> bool" where
  "is_object (JObj kvs) = True"
| "is_object _ = False"

fun array_of :: "(jsval \<Rightarrow> bool) \<Rightarrow> jsval \<Rightarrow> bool" where
  "array_of P (JArr xs) = list_all P xs"
| "array_of P _ = False"

definition absent_or_array_of :: "(jsval \<Rightarrow> bool) \<Rightarrow> jsval \<Rightarrow> bool" where
  "absent_or_array_of P v = (v = JUndefined \<or> array_of P v)"

text \<open>
  A message: an object whose \<^verbatim>\<open>from\<close>, \<^verbatim>\<open>id\<close>, \<^verbatim>\<open>timestamp\<close> and \<^verbatim>\<open>type\<close> are strings; of
  type \<^verbatim>\<open>text\<close> it has a \<^verbatim>\<open>text\<close> object with a string \<^verbatim>\<open>body\<close>, of type \<^verbatim>\<open>button\<close> a
  \<^verbatim>\<open>button\<close> object with a string \<^verbatim>\<open>text\<close>. Any other type (image, audio, ...) is a
  message as well.
\<close>

definition shaped_message :: "jsval \<Rightarrow> bool" where
  "shaped_message msg =
     (is_object msg \<and> is_string (js_get msg ''from'') \<and> is_string (js_get msg ''id'')
      \<and> is_string (js_get msg ''timestamp'') \<and> is_string (js_get msg ''type'')
      \<and> (if js_get msg ''type'' = JStr ''text''
          then is_object (js_get msg ''text'') \<and> is_string (js_get (js_get msg ''text'') ''body'')
          else True)
      \<and> (if js_get msg ''type'' = JStr ''button''
          then is_object (js_get msg ''button'')
               \<and> is_string (js_get (js_get msg ''button'') ''text'')
          else True))"

definition shaped_status :: "jsval \<Rightarrow> bool" where
  "shaped_status st =
     (is_object st \<and> is_string (js_get st ''id'') \<and> is_string (js_get st ''status'')
      \<and> is_string (js_get st ''timestamp''))"

definition shaped_change :: "jsval \<Rightarrow> bool" where
  "shaped_change change =
     (is_object change \<and> is_object (js_get change ''value'')
      \<and> absent_or_array_of shaped_message (js_get (js_get change ''value'') ''messages'')
      \<and> absent_or_array_of shaped_status (js_get (js_get change ''value'') ''statuses''))"

definition shaped_entry :: "jsval \<Rightarrow> bool" where
  "shaped_entry entry =
     (is_object entry \<and> absent_or_array_of shaped_change (js_get entry ''changes''))"

text \<open>
  An event: any value but \<^verbatim>\<open>null\<close>; when it is tagged as an event of a WhatsApp business
  account, its entries are of the format.
\<close>

definition shaped_event :: "jsval \<Rightarrow> bool" where
  "shaped_event event =
     (\<not> is_nullish event
      \<and> (if js_get event ''object'' = JStr ''whatsapp_business_account''
          then absent_or_array_of shaped_entry (js_get event ''entry'')
          else True))"





section \<open>Two deliveries\<close>

text \<open>
  The body of a delivery with an image message, a text message and a status, and the
  body of a delivery with the text message and \<^verbatim>\<open>null\<close> as a second message, each with the
  value \<^verbatim>\<open>JSON.parse\<close> returns for it. \<open>sample_parse\<close> is \<^verbatim>\<open>JSON.parse\<close> on these two
  bodies.
\<close>

definition image_message :: jsval where
  "image_message =
     JObj [(''from'', JStr ''15550001111''), (''id'', JStr ''wamid.A0''),
           (''timestamp'', JStr ''1699999999''), (''type'', JStr ''image'')]"

definition sample_message :: jsval where
  "sample_message =
     JObj [(''from'', JStr ''15551234567''), (''id'', JStr ''wamid.A1''),
           (''timestamp'', JStr ''1700000000''), (''type'', JStr ''text''),
           (''text'', JObj [(''body'', JStr ''yes'')])]"

definition sample_status :: jsval where
  "sample_status =
     JObj [(''id'', JStr ''wamid.S1''), (''status'', JStr ''delivered''),
           (''timestamp'', JStr ''1700000001'')]"

definition event_of_value :: "jsval \<Rightarrow> jsval" where
  "event_of_value v =
     JObj [(''object'', JStr ''whatsapp_business_account''),
           (''entry'', JArr [JObj [(''changes'', JArr [JObj [(''value'', v)]])]])]"

definition delivery_event :: jsval where
  "delivery_event =
     event_of_value (JObj [(''messages'', JArr [image_message, sample_message]),
                           (''statuses'', JArr [sample_status])])"

definition batch_event :: jsval where
  "batch_event = event_of_value (JObj [(''messages'', JArr [sample_message, JNull])])"

definition delivery_body :: js_string where
  "delivery_body = units ''{\"object\":\"whatsapp_business_account\",\"entry\":[{\"changes\":[{\"value\":{\"messages\":[{\"from\":\"15550001111\",\"id\":\"wamid.A0\",\"timestamp\":\"1699999999\",\"type\":\"image\"},{\"from\":\"15551234567\",\"id\":\"wamid.A1\",\"timestamp\":\"1700000000\",\"type\":\"text\",\"text\":{\"body\":\"yes\"}}],\"statuses\":[{\"id\":\"wamid.S1\",\"status\":\"delivered\",\"timestamp\":\"1700000001\"}]}}]}]}''"

definition batch_body :: js_string where
  "batch_body = units ''{\"object\":\"whatsapp_business_account\",\"entry\":[{\"changes\":[{\"value\":{\"messages\":[{\"from\":\"15551234567\",\"id\":\"wamid.A1\",\"timestamp\":\"1700000000\",\"type\":\"text\",\"text\":{\"body\":\"yes\"}},null]}}]}]}''"

definition sample_parse :: "js_string \<Rightarrow> exn + jsval" where
  "sample_parse body =
     (if body = delivery_body then Inr delivery_event
      else if body = batch_body then Inr batch_event
      else Inl SyntaxError)"

definition sample_provider :: provider where
  "sample_provider = \<lparr>provider_sendMessage = (\<lambda>to msg. Inr ''wamid.1''),
                       provider_markAsRead = (\<lambda>messageId. Inl (Error ''Provider not initialized''))\<rparr>"

section \<open>Predicates of the proofs\<close>

text \<open>
  A waiter that waits with a live timer and that no key of the table leads to: its entry
  was overwritten or deleted.
\<close>

definition orphan :: "mcp \<Rightarrow> nat \<Rightarrow> bool" where
  "orphan s w = (w < length (waiters s) \<and> timer_pending s w \<and> outcome_of s w = None
                 \<and> (\<forall>k. pendingResponses s k \<noteq> Some w))"

text \<open>Every entry of the table leads to a waiter that was created.\<close>

definition table_ok :: "mcp \<Rightarrow> bool" where
  "table_ok s = (\<forall>k w. pendingResponses s k = Some w \<longrightarrow> w < length (waiters s))"


text \<open>A byte, as a buffer holds it.\<close>

definition is_byte :: "int \<Rightarrow> bool" where
  "is_byte b = (0 \<le> b \<and> b < 256)"

text \<open>
  Every entry of the table leads to a waiter that still waits and that was registered
  under the key of the entry.
\<close>

definition occupants_wait :: "mcp \<Rightarrow> bool" where
  "occupants_wait s =
     (\<forall>k w. pendingResponses s k = Some w \<longrightarrow>
        w < length (waiters s) \<and> outcome_of s w = None \<and> wkey (waiters s ! w) = k)"

section \<open>Properties of the pending-reply table\<close>

lemma normalize_idem: "normalizePhoneNumber (normalizePhoneNumber p) = normalizePhoneNumber p"
  by (simp add: normalizePhoneNumber_def)

lemma settle_pending [simp]: "pendingResponses (settle w t out s) = pendingResponses s"
  by (simp add: settle_def)

lemma settle_length [simp]: "length (waiters (settle w t out s)) = length (waiters s)"
  by (simp add: settle_def)

lemma clearTimeout_pending [simp]: "pendingResponses (clearTimeout w s) = pendingResponses s"
  by (simp add: clearTimeout_def)

lemma clearTimeout_length [simp]: "length (waiters (clearTimeout w s)) = length (waiters s)"
  by (simp add: clearTimeout_def)

lemma outcome_of_settle:
  "outcome_of (settle w t out s) v =
     (if v = w \<and> w < length (waiters s) \<and> outcome_of s w = None then Some (t, out) else outcome_of s v)"
  by (auto simp: settle_def outcome_of_def nth_list_update)

lemma outcome_of_clearTimeout [simp]: "outcome_of (clearTimeout w s) v = outcome_of s v"
  by (auto simp: clearTimeout_def outcome_of_def nth_list_update)

lemma outcome_of_pending_update [simp]:
  "outcome_of (s\<lparr>pendingResponses := p\<rparr>) v = outcome_of s v"
  by (simp add: outcome_of_def)

lemma timer_pending_settle [simp]: "timer_pending (settle w t out s) v = timer_pending s v"
  by (auto simp: settle_def timer_pending_def nth_list_update)

lemma timer_pending_clearTimeout:
  "timer_pending (clearTimeout w s) v = (v \<noteq> w \<and> timer_pending s v)"
  by (auto simp: clearTimeout_def timer_pending_def nth_list_update)

lemma timer_pending_pending_update [simp]:
  "timer_pending (s\<lparr>pendingResponses := p\<rparr>) v = timer_pending s v"
  by (simp add: timer_pending_def)


lemma register_pending:
  "pendingResponses (snd (register phone ms t s)) =
     (pendingResponses s)(normalizePhoneNumber phone \<mapsto> length (waiters s))"
  by (simp add: register_def Let_def)

lemma register_length: "length (waiters (snd (register phone ms t s))) = Suc (length (waiters s))"
  by (simp add: register_def Let_def)

lemma outcome_of_register:
  "outcome_of (snd (register phone ms t s)) v = outcome_of s v"
  by (auto simp: register_def Let_def outcome_of_def nth_append)

lemma timer_pending_register:
  "timer_pending (snd (register phone ms t s)) v = (v = length (waiters s) \<or> timer_pending s v)"
  by (auto simp: register_def Let_def timer_pending_def nth_append)

lemma outcome_of_beyond: "length (waiters s) \<le> w \<Longrightarrow> outcome_of s w = None"
  by (simp add: outcome_of_def)

lemma onMessage_hit:
  "pendingResponses s (normalizePhoneNumber sender) = Some w \<Longrightarrow>
   onMessageReceived now (JStr sender) T cid s =
     (None, settle w now (Resolved T)
        ((clearTimeout w s)\<lparr>pendingResponses := (pendingResponses s)(normalizePhoneNumber sender := None)\<rparr>))"
  by (simp add: onMessageReceived.simps Let_def)

lemma onMessage_miss:
  "pendingResponses s (normalizePhoneNumber sender) = None \<Longrightarrow>
   onMessageReceived now (JStr sender) T cid s = (None, s)"
  by (simp add: onMessageReceived.simps Let_def)

lemma register_eq:
  "register phone ms t s = (length (waiters s), snd (register phone ms t s))"
  by (simp add: register_def Let_def)

lemma length_waiters_pending_update [simp]:
  "length (waiters (s\<lparr>pendingResponses := p\<rparr>)) = length (waiters s)"
  by simp


subsection \<open>Timers\<close>

lemma timeout_handler_length [simp]:
  "length (waiters (timeout_handler v s)) = length (waiters s)"
  by (simp add: timeout_handler_def)

lemma timeout_handler_deadline [simp]:
  "deadline (waiters (timeout_handler v s) ! u) = deadline (waiters s ! u)"
  by (auto simp: timeout_handler_def settle_def clearTimeout_def nth_list_update)

lemma timeout_handler_wkey [simp]:
  "wkey (waiters (timeout_handler v s) ! u) = wkey (waiters s ! u)"
  by (auto simp: timeout_handler_def settle_def clearTimeout_def nth_list_update)

lemma outcome_of_timeout_handler:
  "outcome_of (timeout_handler v s) u =
     (if u = v \<and> v < length (waiters s) \<and> outcome_of s v = None
      then Some (deadline (waiters s ! v), Rejected ''Timeout waiting for user reply'')
      else outcome_of s u)"
  by (simp add: timeout_handler_def outcome_of_settle)

lemma timer_pending_timeout_handler:
  "timer_pending (timeout_handler v s) u = (u \<noteq> v \<and> timer_pending s u)"
proof (cases "v < length (waiters s)")
  case True
  then show ?thesis by (simp add: timeout_handler_def timer_pending_clearTimeout)
next
  case False
  then have "\<not> timer_pending s v" by (simp add: timer_pending_def)
  with False show ?thesis by (auto simp: timeout_handler_def)
qed

lemma pending_timeout_handler:
  "pendingResponses (timeout_handler v s) k =
     (if v < length (waiters s) \<and> wkey (waiters s ! v) = k then None else pendingResponses s k)"
  by (simp add: timeout_handler_def)

lemma fold_timeout_length [simp]:
  "length (waiters (fold timeout_handler vs s)) = length (waiters s)"
  by (induction vs arbitrary: s) auto

lemma fold_timeout_deadline [simp]:
  "deadline (waiters (fold timeout_handler vs s) ! u) = deadline (waiters s ! u)"
  by (induction vs arbitrary: s) auto

lemma fold_timeout_wkey [simp]:
  "wkey (waiters (fold timeout_handler vs s) ! u) = wkey (waiters s ! u)"
  by (induction vs arbitrary: s) auto

lemma outcome_of_fold_timeout:
  "outcome_of (fold timeout_handler vs s) u =
     (if u \<in> set vs \<and> u < length (waiters s) \<and> outcome_of s u = None
      then Some (deadline (waiters s ! u), Rejected ''Timeout waiting for user reply'')
      else outcome_of s u)"
  by (induction vs arbitrary: s) (auto simp: outcome_of_timeout_handler)

lemma timer_pending_fold_timeout:
  "timer_pending (fold timeout_handler vs s) u = (u \<notin> set vs \<and> timer_pending s u)"
  by (induction vs arbitrary: s) (auto simp: timer_pending_timeout_handler)

lemma pending_fold_timeout:
  "pendingResponses (fold timeout_handler vs s) k =
     (if \<exists>v \<in> set vs. v < length (waiters s) \<and> wkey (waiters s ! v) = k then None
      else pendingResponses s k)"
  by (induction vs arbitrary: s) (auto simp: pending_timeout_handler)

lemma set_due: "set (due t s) = {w. timer_pending s w \<and> deadline (waiters s ! w) \<le> t}"
  by (auto simp: due_def timer_pending_def)

lemma run_timers_length [simp]: "length (waiters (run_timers t s)) = length (waiters s)"
  by (simp add: run_timers_def)

lemma run_timers_deadline [simp]:
  "deadline (waiters (run_timers t s) ! u) = deadline (waiters s ! u)"
  by (simp add: run_timers_def)

lemma run_timers_wkey [simp]: "wkey (waiters (run_timers t s) ! u) = wkey (waiters s ! u)"
  by (simp add: run_timers_def)

lemma outcome_of_run_timers:
  "outcome_of (run_timers t s) u =
     (if timer_pending s u \<and> deadline (waiters s ! u) \<le> t \<and> outcome_of s u = None
      then Some (deadline (waiters s ! u), Rejected ''Timeout waiting for user reply'')
      else outcome_of s u)"
  by (auto simp: run_timers_def outcome_of_fold_timeout set_due timer_pending_def)

lemma timer_pending_run_timers:
  "timer_pending (run_timers t s) u = (timer_pending s u \<and> t < deadline (waiters s ! u))"
  by (auto simp: run_timers_def timer_pending_fold_timeout set_due)

lemma pending_run_timers:
  "pendingResponses (run_timers t s) k =
     (if \<exists>v. timer_pending s v \<and> deadline (waiters s ! v) \<le> t \<and> wkey (waiters s ! v) = k
      then None else pendingResponses s k)"
  by (auto simp: run_timers_def pending_fold_timeout set_due timer_pending_def)

text \<open>Registration and the callback, seen through the same observations.\<close>

lemma register_deadline:
  "u \<le> length (waiters s) \<Longrightarrow> deadline (waiters (snd (register phone ms t s)) ! u) =
     (if u = length (waiters s) then t + setTimeout_delay ms else deadline (waiters s ! u))"
  by (auto simp: register_def Let_def nth_append)

lemma register_wkey:
  "u \<le> length (waiters s) \<Longrightarrow> wkey (waiters (snd (register phone ms t s)) ! u) =
     (if u = length (waiters s) then normalizePhoneNumber phone else wkey (waiters s ! u))"
  by (auto simp: register_def Let_def nth_append)

lemma onMessage_length [simp]:
  "length (waiters (snd (onMessageReceived now sender T cid s))) = length (waiters s)"
  by (cases sender) (auto simp: onMessageReceived.simps Let_def split: option.splits)

lemma onMessage_deadline [simp]:
  "deadline (waiters (snd (onMessageReceived now sender T cid s)) ! u) = deadline (waiters s ! u)"
  by (cases sender)
     (auto simp: onMessageReceived.simps Let_def settle_def clearTimeout_def nth_list_update
           split: option.splits)

lemma onMessage_wkey [simp]:
  "wkey (waiters (snd (onMessageReceived now sender T cid s)) ! u) = wkey (waiters s ! u)"
  by (cases sender)
     (auto simp: onMessageReceived.simps Let_def settle_def clearTimeout_def nth_list_update
           split: option.splits)

lemma outcome_of_onMessage:
  "outcome_of (snd (onMessageReceived now sender T cid s)) u =
     (case sender of
        JStr f \<Rightarrow>
          (if pendingResponses s (normalizePhoneNumber f) = Some u \<and> u < length (waiters s)
              \<and> outcome_of s u = None
           then Some (now, Resolved T) else outcome_of s u)
      | _ \<Rightarrow> outcome_of s u)"
  by (cases sender)
     (auto simp: onMessageReceived.simps Let_def outcome_of_settle split: option.splits)

lemma timer_pending_onMessage:
  "timer_pending (snd (onMessageReceived now sender T cid s)) u =
     (case sender of
        JStr f \<Rightarrow> (pendingResponses s (normalizePhoneNumber f) \<noteq> Some u \<and> timer_pending s u)
      | _ \<Rightarrow> timer_pending s u)"
  by (cases sender)
     (auto simp: onMessageReceived.simps Let_def timer_pending_clearTimeout split: option.splits)

lemma pending_onMessage:
  "pendingResponses (snd (onMessageReceived now sender T cid s)) k =
     (case sender of
        JStr f \<Rightarrow> (if k = normalizePhoneNumber f then None else pendingResponses s k)
      | _ \<Rightarrow> pendingResponses s k)"
  by (cases sender) (auto simp: onMessageReceived.simps Let_def split: option.splits)


text \<open>The delay of a timer, for some timeouts within and outside the range.\<close>

lemma setTimeout_delay_samples:
  "setTimeout_delay (Finite 1000) = 1000"
  "setTimeout_delay (Finite 3000000000) = 1"
  "setTimeout_delay (Finite 0) = 1"
  "setTimeout_delay (Finite (- 5)) = 1"
  "setTimeout_delay (Finite (1 / 2)) = 1"
  "setTimeout_delay (Finite 2147483647) = 2147483647"
  by simp_all

lemma setTimeout_delay_fraction: "setTimeout_delay (Finite (5 / 2)) = 2"
proof -
  have "\<lfloor>5 / 2 :: rat\<rfloor> = 2" by (simp add: floor_eq_iff)
  then show ?thesis by simp
qed


subsection \<open>Runs of the process\<close>

lemma orphan_run_timers:
  "orphan s w \<Longrightarrow> t < deadline (waiters s ! w) \<Longrightarrow> orphan (run_timers t s) w"
  by (auto simp: orphan_def timer_pending_run_timers outcome_of_run_timers pending_run_timers)

lemma orphan_register: "orphan s w \<Longrightarrow> orphan (snd (register phone ms t s)) w"
  by (auto simp: orphan_def timer_pending_register outcome_of_register register_pending
        register_length)

lemma orphan_onMessage: "orphan s w \<Longrightarrow> orphan (snd (onMessageReceived now sender T cid s)) w"
  by (cases sender)
     (auto simp: orphan_def timer_pending_onMessage outcome_of_onMessage pending_onMessage)

lemma orphan_step:
  "orphan s w \<Longrightarrow> t < deadline (waiters s ! w) \<Longrightarrow> orphan (step (t, e) s) w"
  by (cases e) (auto intro: orphan_run_timers orphan_register orphan_onMessage)

lemma deadline_step:
  "w < length (waiters s) \<Longrightarrow> deadline (waiters (step (t, e) s) ! w) = deadline (waiters s ! w)"
  by (cases e) (auto simp: register_deadline)

lemma settled_run_timers:
  "outcome_of s w = Some x \<Longrightarrow> outcome_of (run_timers t s) w = Some x"
  by (simp add: outcome_of_run_timers)

lemma settled_step: "outcome_of s w = Some x \<Longrightarrow> outcome_of (step (t, e) s) w = Some x"
  by (cases e)
     (auto simp: outcome_of_register outcome_of_onMessage settled_run_timers split: jsval.splits)

lemma settled_exec: "outcome_of s w = Some x \<Longrightarrow> outcome_of (exec evs s) w = Some x"
  unfolding exec_def
  by (induction evs arbitrary: s) (auto simp: settled_step)

lemma orphan_fires:
  assumes "orphan s w" and "deadline (waiters s ! w) \<le> t"
  shows "outcome_of (step (t, e) s) w
           = Some (deadline (waiters s ! w), Rejected ''Timeout waiting for user reply'')"
proof -
  have "outcome_of (run_timers t s) w
          = Some (deadline (waiters s ! w), Rejected ''Timeout waiting for user reply'')"
    using assms by (simp add: orphan_def outcome_of_run_timers)
  then show ?thesis
    by (cases e)
       (auto simp: outcome_of_register outcome_of_onMessage split: jsval.splits)
qed

lemma orphan_exec:
  "orphan s w \<Longrightarrow>
   outcome_of (exec evs s) w =
     (if \<exists>(t, e) \<in> set evs. deadline (waiters s ! w) \<le> t
      then Some (deadline (waiters s ! w), Rejected ''Timeout waiting for user reply'')
      else None)"
proof (induction evs arbitrary: s)
  case Nil
  then show ?case by (simp add: exec_def orphan_def)
next
  case (Cons ev evs)
  obtain t e where ev: "ev = (t, e)" by (cases ev)
  have unfold: "exec ((t, e) # evs) s = exec evs (step (t, e) s)"
    by (simp add: exec_def)
  show ?case
  proof (cases "deadline (waiters s ! w) \<le> t")
    case True
    with Cons.prems have "outcome_of (step (t, e) s) w
        = Some (deadline (waiters s ! w), Rejected ''Timeout waiting for user reply'')"
      by (rule orphan_fires)
    then have "outcome_of (exec evs (step (t, e) s)) w
        = Some (deadline (waiters s ! w), Rejected ''Timeout waiting for user reply'')"
      by (rule settled_exec)
    with True show ?thesis unfolding ev by (auto simp: unfold)
  next
    case False
    then have before: "t < deadline (waiters s ! w)" by simp
    have o: "orphan (step (t, e) s) w"
      using Cons.prems before by (rule orphan_step)
    have d: "deadline (waiters (step (t, e) s) ! w) = deadline (waiters s ! w)"
      using Cons.prems by (intro deadline_step) (simp add: orphan_def)
    show ?thesis
      unfolding ev using Cons.IH [OF o] False by (simp add: unfold d)
  qed
qed

lemma table_ok_init: "table_ok mcp_init"
  by (simp add: table_ok_def mcp_init_def)

lemma table_ok_run_timers: "table_ok s \<Longrightarrow> table_ok (run_timers t s)"
  by (auto simp: table_ok_def pending_run_timers split: if_splits)

lemma table_ok_step: "table_ok s \<Longrightarrow> table_ok (step (t, e) s)"
proof (cases e)
  case (Wait phone ms)
  assume "table_ok s"
  then have "table_ok (run_timers t s)" by (rule table_ok_run_timers)
  then show ?thesis
    by (auto simp: Wait table_ok_def register_pending register_length less_Suc_eq split: if_splits)
next
  case (Inbound sender T)
  assume "table_ok s"
  then have "table_ok (run_timers t s)" by (rule table_ok_run_timers)
  then show ?thesis
    by (cases sender) (auto simp: Inbound table_ok_def pending_onMessage split: if_splits)
next
  case Idle
  assume "table_ok s"
  then show ?thesis by (simp add: Idle table_ok_run_timers)
qed

lemma table_ok_exec: "table_ok s \<Longrightarrow> table_ok (exec evs s)"
  unfolding exec_def
proof (induction evs arbitrary: s)
  case Nil
  then show ?case by simp
next
  case (Cons ev evs)
  then show ?case by (cases ev) (simp add: table_ok_step)
qed


subsection \<open>Two waits for one number\<close>

lemma exec_two: "exec [a, b] s = step b (step a s)"
  by (simp add: exec_def)

lemma exec_one: "exec [a] s = step a s"
  by (simp add: exec_def)

lemma wait_step:
  fixes s :: mcp and t :: nat and ms :: number and phone :: string
  assumes "table_ok s"
  defines "s' \<equiv> step (t, Wait phone ms) s" and "w \<equiv> length (waiters s)"
  shows "length (waiters s') = Suc w"
    and "pendingResponses s' (normalizePhoneNumber phone) = Some w"
    and "k \<noteq> normalizePhoneNumber phone \<Longrightarrow> pendingResponses s' k \<noteq> Some w"
    and "deadline (waiters s' ! w) = t + setTimeout_delay ms"
    and "wkey (waiters s' ! w) = normalizePhoneNumber phone"
    and "timer_pending s' w"
    and "outcome_of s' w = None"
    and "table_ok s'"
proof -
  have len: "length (waiters (run_timers t s)) = w" by (simp add: w_def)
  have ok: "table_ok (run_timers t s)" using assms(1) by (rule table_ok_run_timers)
  show "length (waiters s') = Suc w"
    by (simp add: s'_def register_length w_def)
  show "pendingResponses s' (normalizePhoneNumber phone) = Some w"
    by (simp add: s'_def register_pending w_def)
  show "pendingResponses s' k \<noteq> Some w" if "k \<noteq> normalizePhoneNumber phone"
    using that ok len by (auto simp: s'_def register_pending table_ok_def)
  show "deadline (waiters s' ! w) = t + setTimeout_delay ms"
    using len by (simp add: s'_def register_deadline)
  show "wkey (waiters s' ! w) = normalizePhoneNumber phone"
    using len by (simp add: s'_def register_wkey)
  show "timer_pending s' w"
    using len by (simp add: s'_def timer_pending_register)
  show "outcome_of s' w = None"
    using len by (simp add: s'_def outcome_of_register outcome_of_beyond)
  show "table_ok s'"
    unfolding s'_def using assms(1) by (rule table_ok_step)
qed

lemma wait_step_older:
  fixes s :: mcp and t :: nat and ms :: number and phone :: string
  assumes "u < length (waiters s)" and "timer_pending s u" and "outcome_of s u = None"
      and "t < deadline (waiters s ! u)"
  defines "s' \<equiv> step (t, Wait phone ms) s"
  shows "timer_pending s' u" and "outcome_of s' u = None"
    and "deadline (waiters s' ! u) = deadline (waiters s ! u)"
    and "wkey (waiters s' ! u) = wkey (waiters s ! u)"
  using assms
  by (simp_all add: timer_pending_register timer_pending_run_timers outcome_of_register
        outcome_of_run_timers register_deadline register_wkey)

lemma two_waits:
  fixes prior :: "(nat \<times> event) list" and tA tB :: nat and msA msB :: number
    and phoneA phoneB :: string
  assumes eq: "normalizePhoneNumber phoneB = normalizePhoneNumber phoneA"
      and lt: "tB < tA + setTimeout_delay msA"
  defines "s0 \<equiv> exec prior mcp_init"
  defines "w1 \<equiv> length (waiters s0)"
  defines "s1 \<equiv> exec [(tA, Wait phoneA msA)] s0"
  defines "s2 \<equiv> exec [(tA, Wait phoneA msA), (tB, Wait phoneB msB)] s0"
  shows "pendingResponses s2 (normalizePhoneNumber phoneA) = Some (Suc w1)"
    and "orphan s2 w1"
    and "deadline (waiters s2 ! w1) = tA + setTimeout_delay msA"
    and "wkey (waiters s2 ! w1) = normalizePhoneNumber phoneA"
    and "length (waiters s2) = Suc (Suc w1)"
    and "deadline (waiters s2 ! Suc w1) = tB + setTimeout_delay msB"
    and "timer_pending s2 (Suc w1)"
    and "outcome_of s2 (Suc w1) = None"
    and "k \<noteq> normalizePhoneNumber phoneA \<Longrightarrow> pendingResponses s2 k \<noteq> Some (Suc w1)"
    and "pendingResponses s1 (normalizePhoneNumber phoneA) = Some w1"
proof -
  have ok0: "table_ok s0"
    unfolding s0_def by (rule table_ok_exec [OF table_ok_init])
  have s1: "s1 = step (tA, Wait phoneA msA) s0" by (simp add: s1_def exec_one)
  have s2: "s2 = step (tB, Wait phoneB msB) s1" by (simp add: s2_def s1 exec_two)
  note f1 = wait_step [OF ok0, where t = tA and phone = phoneA and ms = msA, folded s1 w1_def]
  have len1: "length (waiters s1) = Suc w1" by (rule f1(1))
  note f2 = wait_step [OF f1(8), where t = tB and phone = phoneB and ms = msB, folded s2, unfolded len1 eq]
  have w1_lt: "w1 < length (waiters s1)" by (simp add: len1)
  have before: "tB < deadline (waiters s1 ! w1)" using lt by (simp add: f1(4))
  note old = wait_step_older [OF w1_lt f1(6) f1(7) before, where phone = phoneB and ms = msB, folded s2]
  show "pendingResponses s1 (normalizePhoneNumber phoneA) = Some w1" by (rule f1(2))
  show "pendingResponses s2 (normalizePhoneNumber phoneA) = Some (Suc w1)" by (rule f2(2))
  show "length (waiters s2) = Suc (Suc w1)" by (rule f2(1))
  show "deadline (waiters s2 ! w1) = tA + setTimeout_delay msA" by (simp add: old(3) f1(4))
  show "wkey (waiters s2 ! w1) = normalizePhoneNumber phoneA" by (simp add: old(4) f1(5))
  show "deadline (waiters s2 ! Suc w1) = tB + setTimeout_delay msB" by (rule f2(4))
  show "timer_pending s2 (Suc w1)" by (rule f2(6))
  show "outcome_of s2 (Suc w1) = None" by (rule f2(7))
  show "pendingResponses s2 k \<noteq> Some (Suc w1)" if "k \<noteq> normalizePhoneNumber phoneA"
    using that by (rule f2(3))
  have "pendingResponses s2 k \<noteq> Some w1" for k
  proof (cases "k = normalizePhoneNumber phoneA")
    case True
    then show ?thesis by (simp add: f2(2))
  next
    case False
    have "pendingResponses s2 k = Some w \<Longrightarrow> pendingResponses s1 k = Some w" for w
      using False
      by (auto simp: s2 register_pending eq pending_run_timers split: if_splits)
    moreover have "pendingResponses s1 k \<noteq> Some w1" using False by (rule f1(3))
    ultimately show ?thesis by blast
  qed
  then show "orphan s2 w1"
    using f2(1) old(1) old(2) by (simp add: orphan_def)
qed


subsection \<open>The holders of the entries\<close>

lemma occupants_wait_init: "occupants_wait mcp_init"
  by (simp add: occupants_wait_def mcp_init_def)

lemma occupants_wait_run_timers:
  assumes "occupants_wait s"
  shows "occupants_wait (run_timers t s)"
  unfolding occupants_wait_def
proof (intro allI impI)
  fix k w
  assume "pendingResponses (run_timers t s) k = Some w"
  then have keep: "\<not> (\<exists>v. timer_pending s v \<and> deadline (waiters s ! v) \<le> t \<and> wkey (waiters s ! v) = k)"
    and entry: "pendingResponses s k = Some w"
    by (auto simp: pending_run_timers split: if_splits)
  from assms entry have w: "w < length (waiters s)" "outcome_of s w = None" "wkey (waiters s ! w) = k"
    by (auto simp: occupants_wait_def)
  from keep w(3) have "\<not> (timer_pending s w \<and> deadline (waiters s ! w) \<le> t)" by blast
  with w show "w < length (waiters (run_timers t s)) \<and> outcome_of (run_timers t s) w = None
      \<and> wkey (waiters (run_timers t s) ! w) = k"
    by (auto simp: outcome_of_run_timers)
qed

lemma occupants_wait_register:
  assumes "occupants_wait s"
  shows "occupants_wait (snd (register phone ms t s))"
  unfolding occupants_wait_def
proof (intro allI impI)
  fix k w
  assume e: "pendingResponses (snd (register phone ms t s)) k = Some w"
  show "w < length (waiters (snd (register phone ms t s)))
      \<and> outcome_of (snd (register phone ms t s)) w = None
      \<and> wkey (waiters (snd (register phone ms t s)) ! w) = k"
  proof (cases "k = normalizePhoneNumber phone")
    case True
    with e have "w = length (waiters s)" by (simp add: register_pending)
    then show ?thesis
      using True by (simp add: register_length outcome_of_register outcome_of_beyond register_wkey)
  next
    case False
    with e have "pendingResponses s k = Some w" by (simp add: register_pending)
    with assms have "w < length (waiters s)" "outcome_of s w = None" "wkey (waiters s ! w) = k"
      by (auto simp: occupants_wait_def)
    then show ?thesis
      by (simp add: register_length outcome_of_register register_wkey)
  qed
qed

lemma occupants_wait_onMessage:
  assumes "occupants_wait s"
  shows "occupants_wait (snd (onMessageReceived now sender T cid s))"
proof (cases sender)
  case (JStr f)
  show ?thesis
    unfolding occupants_wait_def
  proof (intro allI impI)
    fix k w
    assume e: "pendingResponses (snd (onMessageReceived now sender T cid s)) k = Some w"
    then have k: "k \<noteq> normalizePhoneNumber f" and entry: "pendingResponses s k = Some w"
      by (auto simp: JStr pending_onMessage split: if_splits)
    from assms entry have w: "w < length (waiters s)" "outcome_of s w = None"
        "wkey (waiters s ! w) = k"
      by (auto simp: occupants_wait_def)
    have "pendingResponses s (normalizePhoneNumber f) \<noteq> Some w"
    proof
      assume "pendingResponses s (normalizePhoneNumber f) = Some w"
      with assms have "wkey (waiters s ! w) = normalizePhoneNumber f"
        by (auto simp: occupants_wait_def)
      with w(3) k show False by simp
    qed
    with w show "w < length (waiters (snd (onMessageReceived now sender T cid s)))
        \<and> outcome_of (snd (onMessageReceived now sender T cid s)) w = None
        \<and> wkey (waiters (snd (onMessageReceived now sender T cid s)) ! w) = k"
      by (simp add: JStr outcome_of_onMessage)
  qed
qed (use assms in \<open>simp_all add: onMessageReceived.simps\<close>)

lemma occupants_wait_step: "occupants_wait s \<Longrightarrow> occupants_wait (step (t, e) s)"
  by (cases e)
     (simp_all add: occupants_wait_run_timers occupants_wait_register occupants_wait_onMessage)

lemma occupants_wait_exec: "occupants_wait s \<Longrightarrow> occupants_wait (exec evs s)"
  unfolding exec_def
proof (induction evs arbitrary: s)
  case Nil
  then show ?case by simp
next
  case (Cons ev evs)
  then show ?case by (cases ev) (simp add: occupants_wait_step)
qed

lemma occupant_of_run:
  "pendingResponses (exec evs mcp_init) k = Some w \<Longrightarrow>
   w < length (waiters (exec evs mcp_init)) \<and> outcome_of (exec evs mcp_init) w = None"
  using occupants_wait_exec [OF occupants_wait_init, of evs]
  by (simp add: occupants_wait_def)


section \<open>Properties of the conversation registry\<close>

lemma find_active_reuse:
  "find_active m phoneNumber = Some cid \<Longrightarrow> getOrCreateConversation phoneNumber now m = (cid, m)"
  by (simp add: getOrCreateConversation_def)

lemma map_of_created:
  "find_active m phoneNumber = None \<Longrightarrow>
   getOrCreateConversation phoneNumber now m = (cid, m1) \<Longrightarrow>
   \<exists>state. map_of (activeConversations m1) cid = Some state \<and> active state
     \<and> messageHistory state = [] \<and> cid \<noteq> []"
  by (auto simp: getOrCreateConversation_def Let_def AList.update_conv')

lemma find_active_created:
  "\<not> by_identity phoneNumber \<Longrightarrow> find_active m phoneNumber = None \<Longrightarrow>
   getOrCreateConversation phoneNumber now m = (cid, m1) \<Longrightarrow>
   find_active m1 phoneNumber = Some cid"
  by (auto simp: getOrCreateConversation_def Let_def AList.update_conv' find_active_def
        phone_get_def phone_set_def)

lemma getOrCreate_present:
  "getOrCreateConversation phoneNumber now m = (cid, m1) \<Longrightarrow>
   \<exists>state. map_of (activeConversations m1) cid = Some state"
proof (cases "find_active m phoneNumber")
  case None
  assume "getOrCreateConversation phoneNumber now m = (cid, m1)"
  with None show ?thesis by (blast dest: map_of_created)
next
  case (Some c)
  assume g: "getOrCreateConversation phoneNumber now m = (cid, m1)"
  with Some have "cid = c" "m1 = m" by (simp_all add: find_active_reuse)
  with Some show ?thesis
    by (auto simp: find_active_def split: option.splits if_splits)
qed


lemma history_of_push:
  "map_of (activeConversations m) cid = Some state \<Longrightarrow>
   history_of (push_message cid e t m) c =
     (if c = cid then history_of m cid @ [e] else history_of m c)"
  by (simp add: history_of_def push_message_def AList.map_of_map_entry)

lemma lastMessageAt_push:
  "map_of (activeConversations m) cid = Some state \<Longrightarrow>
   lastMessageAt_of (push_message cid e t m) cid = Some t"
  by (simp add: lastMessageAt_of_def push_message_def AList.map_of_map_entry)

lemma push_message_others:
  "c \<noteq> cid \<Longrightarrow>
   map_of (activeConversations (push_message cid e t m)) c = map_of (activeConversations m) c"
  by (simp add: push_message_def AList.map_of_map_entry)

lemma push_message_ids [simp]:
  "getActiveConversations (push_message cid e t m) = getActiveConversations m"
proof -
  have "map fst (AList.map_entry cid f al) = map fst al" for f and al :: "(string \<times> ConversationState) list"
    by (induction al) auto
  then show ?thesis by (simp add: getActiveConversations_def push_message_def)
qed

lemma show_nat_digit: "n < 10 \<Longrightarrow> show_nat n = [digit_char n]"
  by (simp add: show_nat.simps)

lemma show_nat_250: "show_nat 250 = ''250''"
proof -
  have "show_nat 2 = ''2''" by (simp add: show_nat.simps [of 2] digit_char_def)
  then have "show_nat 25 = ''25''" by (simp add: show_nat.simps [of 25] digit_char_def)
  then show ?thesis by (simp add: show_nat.simps [of 250] digit_char_def)
qed

lemma getOrCreate_first:
  "getOrCreateConversation (JStr ''+15551234567'') 5 manager_init =
     (''conv-1-5'',
      \<lparr>activeConversations =
         [(''conv-1-5'',
           \<lparr>conversationId = ''conv-1-5'', userPhoneNumber = JStr ''+15551234567'',
            messageHistory = [], startTime = At 5, lastMessageAt = At 5, active = True\<rparr>)],
       phoneToConversationId = [JStr ''+15551234567'' \<mapsto> ''conv-1-5''],
       currentConversationId = 1\<rparr>)"
  by (simp add: getOrCreateConversation_def find_active_def phone_get_def phone_set_def
        manager_init_def Let_def show_nat_digit digit_char_def)


section \<open>Properties of the tool call\<close>



section \<open>Properties of the signature check\<close>

lemma validate_missing: "\<not> validateMetaWhatsAppSignature appSecret None body"
  by (simp add: validateMetaWhatsAppSignature_def)



lemma xor_int_eq_0_iff: "(x XOR y = 0) = (x = y)" for x y :: int
proof
  assume "x XOR y = 0"
  then have "(x XOR y) XOR y = y" by simp
  then show "x = y" by (simp add: xor.assoc)
qed simp

lemma foldl_or_xor_zero:
  "length a = length b \<Longrightarrow>
   (foldl (\<lambda>result (x, y). result OR (x XOR y)) acc (zip a b) = (0::int)) = (acc = 0 \<and> a = b)"
proof (induction a b arbitrary: acc rule: list_induct2)
  case Nil
  then show ?case by simp
next
  case (Cons x xs y ys)
  then show ?case by (auto simp: or_eq_0_iff xor_int_eq_0_iff)
qed

lemma timingSafeEqual_iff: "timingSafeEqual a b = (a = b)"
  by (auto simp: timingSafeEqual_def foldl_or_xor_zero)

lemma hexval_hex_digits:
  "list_all (\<lambda>d. hexval (hex_digit d) = Some (int d))
     [0, 1, 2, 3, 4, 5, 6, 7, 8, 9, 10, 11, 12, 13, 14, 15]"
  by (simp add: hex_digit_def hexval_def)

text \<open>Only the low byte of a code unit is read: U+0166 counts as the digit \<^verbatim>\<open>f\<close>.\<close>

lemma hexval_low_byte: "hexval 0x0166 = Some 15" "hexval (of_char CHR ''f'') = Some 15"
  by (simp_all add: hexval_def)

lemma hexval_hex_digit: "d < 16 \<Longrightarrow> hexval (hex_digit d) = Some (int d)"
proof -
  assume "d < 16"
  then have "d \<in> set [0, 1, 2, 3, 4, 5, 6, 7, 8, 9, 10, 11, 12, 13, 14, 15]"
    by (simp only: set_simps insert_iff empty_iff) arith
  with hexval_hex_digits show ?thesis
    unfolding list_all_iff by blast
qed

lemma hex_pair:
  assumes "is_byte b"
  shows "nat b div 16 < 16" and "nat b mod 16 < 16"
    and "16 * int (nat b div 16) + int (nat b mod 16) = b"
proof -
  have b: "0 \<le> b" "b < 256" using assms by (simp_all add: is_byte_def)
  then show "nat b div 16 < 16" by simp
  show "nat b mod 16 < 16" by simp
  have "int (nat b div 16) = b div 16" and "int (nat b mod 16) = b mod 16"
    using b(1) by (simp_all add: zdiv_int zmod_int)
  then show "16 * int (nat b div 16) + int (nat b mod 16) = b"
    by simp
qed

lemma hex_encode_Cons:
  "hex_encode (b # bs) = hex_digit (nat b div 16) # hex_digit (nat b mod 16) # hex_encode bs"
  by (simp add: hex_encode_def)

lemma hex_encode_Nil [simp]: "hex_encode [] = []"
  by (simp add: hex_encode_def)

lemma length_hex_encode [simp]: "length (hex_encode bs) = 2 * length bs"
  by (induction bs) (simp_all add: hex_encode_Cons)

lemma hex_decode_encode: "list_all is_byte bs \<Longrightarrow> hex_decode (hex_encode bs) = bs"
  by (induction bs) (simp_all add: hex_encode_Cons hexval_hex_digit hex_pair)




lemma is_byte_mask: "is_byte (x AND 0xFF)"
  by (simp add: is_byte_def)

lemma is_byte_unbe32: "list_all is_byte (unbe32 w)"
  by (simp add: unbe32_def is_byte_mask)

lemma is_byte_sha256: "list_all is_byte (sha256 m)"
  by (simp add: sha256_def list_all_iff) (use is_byte_unbe32 in \<open>auto simp: list_all_iff\<close>)

lemma is_byte_hmac: "list_all is_byte (hmac_sha256 key m)"
  by (simp add: hmac_sha256_def Let_def is_byte_sha256)

lemma length_unbe32 [simp]: "length (unbe32 w) = 4"
  by (simp add: unbe32_def)

lemma length_sha256: "length (sha256 m) = 32"
proof -
  obtain a b c d e f g h where "blocks (be32 (pad m)) H0 = (a, b, c, d, e, f, g, h)"
    by (metis prod_cases3)
  then show ?thesis by (simp add: sha256_def)
qed

lemma length_hmac: "length (hmac_sha256 key m) = 32"
  by (simp add: hmac_sha256_def Let_def length_sha256)

lemma length_units [simp]: "length (units s) = length s"
  by (simp add: units_def)

lemma validate_iff:
  "validateMetaWhatsAppSignature appSecret signature body =
     (\<exists>sg. signature = Some sg \<and> take 7 sg = units ''sha256=''
           \<and> hex_decode (drop 7 sg) = hmac_sha256 (utf8_encode appSecret) (utf8_encode body))"
proof (cases signature)
  case None
  then show ?thesis by (simp add: validateMetaWhatsAppSignature_def)
next
  case (Some sg)
  have "take 7 sg = units ''sha256='' \<Longrightarrow> sg \<noteq> []"
    by (auto simp: units_def)
  then show ?thesis
    unfolding Some
    by (auto simp: validateMetaWhatsAppSignature_def Let_def timingSafeEqual_iff
          hex_decode_encode is_byte_hmac)
qed

lemma validate_same_encoding:
  "utf8_encode body' = utf8_encode body \<Longrightarrow>
   validateMetaWhatsAppSignature appSecret signature body'
     = validateMetaWhatsAppSignature appSecret signature body"
  by (simp add: validate_iff)

lemma utf8_encode_ascii:
  "list_all (\<lambda>u. 0 \<le> u \<and> u < 0x80) us \<Longrightarrow> utf8_encode us = us"
  by (induction us) simp_all

subsection \<open>A test vector\<close>








section \<open>Properties of the webhook\<close>

lemma for_each_single: "for_each f [x] s = f x s"
  by (cases "f x s") (auto split: option.splits)

lemma js_get_nullish: "is_nullish v \<Longrightarrow> js_get v k = JUndefined"
  by (cases v) simp_all

lemma not_nullish_get: "js_get v k \<noteq> JUndefined \<Longrightarrow> \<not> is_nullish v"
  by (cases v) simp_all

lemma for_each_no_throw:
  "(\<And>x s. x \<in> set xs \<Longrightarrow> fst (f x s) = None) \<Longrightarrow> fst (for_each f xs s) = None"
proof (induction xs arbitrary: s)
  case Nil
  then show ?case by simp
next
  case (Cons x xs)
  obtain e s' where r: "f x s = (e, s')" by (cases "f x s")
  have "fst (f x s) = None" by (rule Cons.prems) simp
  then have e: "e = None" by (simp add: r)
  have "fst (for_each f xs s') = None"
    by (rule Cons.IH) (simp add: Cons.prems)
  then show ?case by (simp add: r e)
qed

lemma onMessage_no_throw: "fst (onMessageReceived now (JStr f) T cid c) = None"
  by (simp add: onMessageReceived.simps Let_def split: option.splits)

lemma is_stringE: "is_string v \<Longrightarrow> \<exists>s. v = JStr s"
  by (cases v) simp_all

lemma is_object_not_nullish: "is_object v \<Longrightarrow> \<not> is_nullish v"
  by (cases v) simp_all

lemma string_no_throw: "is_string v \<Longrightarrow> \<not> toString_throws v"
  by (cases v) simp_all

lemma extract_text_shaped:
  "shaped_message msg \<Longrightarrow> extract_text msg = None \<or> (\<exists>t. extract_text msg = Some (JStr t))"
  by (auto simp: shaped_message_def extract_text_def dest: is_stringE split: if_splits)

lemma handleIncomingMessage_shaped:
  assumes "shaped_message msg"
  shows "fst (handleIncomingMessage whatsapp (Some (onMessageReceived now)) now' msg st) = None"
proof -
  obtain m c where st: "st = (m, c)" by (cases st)
  from assms have msg: "\<not> is_nullish msg"
    by (simp add: shaped_message_def is_object_not_nullish)
  from assms obtain f where f: "js_get msg ''from'' = JStr f"
    by (auto simp: shaped_message_def dest: is_stringE)
  from assms have quiet: "\<not> toString_throws (js_get msg ''timestamp'')"
      "\<not> toString_throws (js_get msg ''type'')"
    by (simp_all add: shaped_message_def string_no_throw)
  from extract_text_shaped [OF assms] show ?thesis
  proof
    assume "extract_text msg = None"
    then show ?thesis
      using msg quiet by (simp add: handleIncomingMessage_def st f Let_def)
  next
    assume "\<exists>t. extract_text msg = Some (JStr t)"
    then obtain t where t: "extract_text msg = Some (JStr t)" ..
    obtain cid m1 where g: "getOrCreateConversation (JStr f) now' m = (cid, m1)"
      by (cases "getOrCreateConversation (JStr f) now' m")
    obtain thrown c' where cb: "onMessageReceived now (JStr f) t cid c = (thrown, c')"
      by (cases "onMessageReceived now (JStr f) t cid c")
    have "thrown = None"
      using onMessage_no_throw [of now f t cid c] by (simp add: cb)
    then show ?thesis
      using msg quiet by (simp add: handleIncomingMessage_def st f t Let_def g cb)
  qed
qed

lemma handleMessageStatus_shaped: "shaped_status status \<Longrightarrow> handleMessageStatus status = None"
  by (simp add: shaped_status_def handleMessageStatus_def is_object_not_nullish string_no_throw)

lemma array_ofE: "array_of P v \<Longrightarrow> \<exists>xs. v = JArr xs \<and> list_all P xs"
  by (cases v) simp_all

lemma process_change_shaped:
  assumes "shaped_change change"
  shows "fst (process_change whatsapp (Some (onMessageReceived now)) now' change st) = None"
proof -
  define v where "v = js_get change ''value''"
  from assms have ch: "\<not> is_nullish change" and va: "\<not> is_nullish v"
    and ms: "absent_or_array_of shaped_message (js_get v ''messages'')"
    and ss: "absent_or_array_of shaped_status (js_get v ''statuses'')"
    by (simp_all add: shaped_change_def v_def is_object_not_nullish)
  define r where "r = (if truthy (js_get v ''messages'')
                        then (case iterate (js_get v ''messages'') of
                                Inl error \<Rightarrow> (Some error, st)
                              | Inr msgs \<Rightarrow>
                                  for_each (handleIncomingMessage whatsapp
                                    (Some (onMessageReceived now)) now') msgs st)
                        else (None, st))"
  have r: "fst r = None"
  proof (cases "js_get v ''messages'' = JUndefined")
    case True
    then show ?thesis by (simp add: r_def)
  next
    case False
    with ms obtain msgs where "js_get v ''messages'' = JArr msgs" "list_all shaped_message msgs"
      by (auto simp: absent_or_array_of_def dest: array_ofE)
    then show ?thesis
      by (simp add: r_def for_each_no_throw handleIncomingMessage_shaped list_all_iff)
  qed
  obtain st' where r': "r = (None, st')" using r by (cases r) simp
  have "fst (if truthy (js_get v ''statuses'')
             then (case iterate (js_get v ''statuses'') of
                     Inl error \<Rightarrow> (Some error, st')
                   | Inr statuses \<Rightarrow>
                       for_each (\<lambda>status s. (handleMessageStatus status, s)) statuses st')
             else (None, st')) = None"
  proof (cases "js_get v ''statuses'' = JUndefined")
    case True
    then show ?thesis by simp
  next
    case False
    with ss obtain sts where "js_get v ''statuses'' = JArr sts" "list_all shaped_status sts"
      by (auto simp: absent_or_array_of_def dest: array_ofE)
    then show ?thesis
      by (simp add: for_each_no_throw handleMessageStatus_shaped list_all_iff)
  qed
  then show ?thesis
    using ch va r' unfolding r_def
    by (simp add: process_change_def v_def [symmetric] Let_def)
qed

lemma process_entry_shaped:
  assumes "shaped_entry entry"
  shows "fst (process_entry whatsapp (Some (onMessageReceived now)) now' entry st) = None"
proof (cases "js_get entry ''changes'' = JUndefined")
  case True
  with assms show ?thesis
    by (simp add: process_entry_def shaped_entry_def is_object_not_nullish or_empty_def)
next
  case False
  with assms obtain chs where "js_get entry ''changes'' = JArr chs" "list_all shaped_change chs"
    by (auto simp: shaped_entry_def absent_or_array_of_def dest: array_ofE)
  with assms show ?thesis
    by (simp add: process_entry_def shaped_entry_def is_object_not_nullish or_empty_def
          for_each_no_throw process_change_shaped list_all_iff)
qed

lemma processWhatsAppEvent_shaped:
  assumes "shaped_event event"
  shows "fst (processWhatsAppEvent whatsapp (Some (onMessageReceived now)) now' event st) = None"
proof (cases "js_get event ''object'' = JStr ''whatsapp_business_account''")
  case False
  with assms show ?thesis by (simp add: processWhatsAppEvent_def shaped_event_def)
next
  case True
  show ?thesis
  proof (cases "js_get event ''entry'' = JUndefined")
    case True
    with assms show ?thesis
      by (simp add: processWhatsAppEvent_def shaped_event_def or_empty_def)
  next
    case False
    with assms True obtain es where "js_get event ''entry'' = JArr es" "list_all shaped_entry es"
      by (auto simp: shaped_event_def absent_or_array_of_def dest: array_ofE)
    with assms True show ?thesis
      by (simp add: processWhatsAppEvent_def shaped_event_def or_empty_def
            for_each_no_throw process_entry_shaped list_all_iff)
  qed
qed


text \<open>What \<^verbatim>\<open>markAsRead\<close> returns or throws has no effect on the handler.\<close>

lemma handleIncomingMessage_markAsRead:
  "handleIncomingMessage (whatsapp\<lparr>provider_markAsRead := f\<rparr>) cb now
     = handleIncomingMessage whatsapp cb now"
  by (intro ext)
     (simp add: handleIncomingMessage_def Let_def
        cong: if_cong option.case_cong prod.case_cong jsval.case_cong)

lemma processWhatsAppEvent_markAsRead:
  "processWhatsAppEvent (whatsapp\<lparr>provider_markAsRead := f\<rparr>) cb now event st
     = processWhatsAppEvent whatsapp cb now event st"
proof -
  have change: "process_change (whatsapp\<lparr>provider_markAsRead := f\<rparr>) cb now
      = process_change whatsapp cb now"
    unfolding process_change_def handleIncomingMessage_markAsRead ..
  have entry: "process_entry (whatsapp\<lparr>provider_markAsRead := f\<rparr>) cb now
      = process_entry whatsapp cb now"
    unfolding process_entry_def change ..
  show ?thesis unfolding processWhatsAppEvent_def entry ..
qed


subsection \<open>An event of the format, as the table sees it\<close>











subsection \<open>Two signed deliveries\<close>

lemma hmac_delivery_body:
  "hmac_sha256 (utf8_encode (units ''app-secret'')) (utf8_encode delivery_body) =
     [0x6c, 0x30, 0x9a, 0xa7, 0x42, 0x30, 0x46, 0x2f, 0x0e, 0x2f, 0xb1, 0xb5, 0xdf, 0x6e, 0x06, 0xaf,
      0xb6, 0x77, 0x4b, 0x4f, 0xb8, 0x45, 0x4d, 0x6c, 0x46, 0xd4, 0x06, 0x30, 0x24, 0x96, 0x9c, 0x2a]"
  by code_simp

lemma hex_decode_delivery_body:
  "hex_decode (units ''6c309aa74230462f0e2fb1b5df6e06afb6774b4fb8454d6c46d4063024969c2a'') =
     [0x6c, 0x30, 0x9a, 0xa7, 0x42, 0x30, 0x46, 0x2f, 0x0e, 0x2f, 0xb1, 0xb5, 0xdf, 0x6e, 0x06, 0xaf,
      0xb6, 0x77, 0x4b, 0x4f, 0xb8, 0x45, 0x4d, 0x6c, 0x46, 0xd4, 0x06, 0x30, 0x24, 0x96, 0x9c, 0x2a]"
  by code_simp

lemma delivery_body_signed:
  "validateMetaWhatsAppSignature (units ''app-secret'')
     (Some (units ''sha256=6c309aa74230462f0e2fb1b5df6e06afb6774b4fb8454d6c46d4063024969c2a''))
     delivery_body"
proof -
  have "units ''sha256=6c309aa74230462f0e2fb1b5df6e06afb6774b4fb8454d6c46d4063024969c2a''
      = units ''sha256='' @ units ''6c309aa74230462f0e2fb1b5df6e06afb6774b4fb8454d6c46d4063024969c2a''"
    by (simp add: units_def)
  then show ?thesis
    unfolding validate_iff by (simp add: hex_decode_delivery_body hmac_delivery_body)
qed

lemma hmac_batch_body:
  "hmac_sha256 (utf8_encode (units ''app-secret'')) (utf8_encode batch_body) =
     [0xef, 0x13, 0xa8, 0x8a, 0x88, 0xd7, 0xd1, 0x94, 0xad, 0x58, 0xae, 0xab, 0xc3, 0xc8, 0x78, 0x02,
      0x0f, 0xe2, 0x76, 0xa8, 0xc9, 0xb6, 0x79, 0x7c, 0x46, 0x4e, 0x7b, 0xd5, 0xf7, 0x5d, 0xb2, 0x59]"
  by code_simp

lemma hex_decode_batch_body:
  "hex_decode (units ''ef13a88a88d7d194ad58aeabc3c878020fe276a8c9b6797c464e7bd5f75db259'') =
     [0xef, 0x13, 0xa8, 0x8a, 0x88, 0xd7, 0xd1, 0x94, 0xad, 0x58, 0xae, 0xab, 0xc3, 0xc8, 0x78, 0x02,
      0x0f, 0xe2, 0x76, 0xa8, 0xc9, 0xb6, 0x79, 0x7c, 0x46, 0x4e, 0x7b, 0xd5, 0xf7, 0x5d, 0xb2, 0x59]"
  by code_simp

lemma batch_body_signed:
  "validateMetaWhatsAppSignature (units ''app-secret'')
     (Some (units ''sha256=ef13a88a88d7d194ad58aeabc3c878020fe276a8c9b6797c464e7bd5f75db259''))
     batch_body"
proof -
  have "units ''sha256=ef13a88a88d7d194ad58aeabc3c878020fe276a8c9b6797c464e7bd5f75db259''
      = units ''sha256='' @ units ''ef13a88a88d7d194ad58aeabc3c878020fe276a8c9b6797c464e7bd5f75db259''"
    by (simp add: units_def)
  then show ?thesis
    unfolding validate_iff by (simp add: hex_decode_batch_body hmac_batch_body)
qed

lemma sample_parse_delivery: "sample_parse delivery_body = Inr delivery_event"
  by (simp add: sample_parse_def)

lemma length_sample_bodies: "length delivery_body = 343" "length batch_body = 192"
  by (simp_all add: delivery_body_def batch_body_def)

lemma sample_parse_batch: "sample_parse batch_body = Inr batch_event"
proof -
  have "batch_body \<noteq> delivery_body"
    using length_sample_bodies by auto
  then show ?thesis by (simp add: sample_parse_def)
qed

lemma delivery_event_shaped: "shaped_event delivery_event"
  by (simp add: shaped_event_def delivery_event_def event_of_value_def image_message_def
        sample_message_def sample_status_def absent_or_array_of_def shaped_entry_def
        shaped_change_def shaped_message_def shaped_status_def)






text \<open>The second delivery: the first message is handled, the second makes the handler throw.\<close>

lemma batch_event_result:
  "processWhatsAppEvent sample_provider (Some (onMessageReceived 250)) 250 batch_event
     (manager_init, mcp_init)
   = (Some TypeError,
      \<lparr>activeConversations =
         [(''conv-1-250'',
           \<lparr>conversationId = ''conv-1-250'', userPhoneNumber = JStr ''15551234567'',
            messageHistory = [\<lparr>role = User, msg_text = ''yes'',
                                timestamp = ParsedSeconds (JStr ''1700000000'')\<rparr>],
            startTime = At 250, lastMessageAt = ParsedSeconds (JStr ''1700000000''),
            active = True\<rparr>)],
       phoneToConversationId = [JStr ''15551234567'' \<mapsto> ''conv-1-250''],
       currentConversationId = 1\<rparr>,
      mcp_init)"
  by (simp add: processWhatsAppEvent_def batch_event_def event_of_value_def or_empty_def
        process_entry_def process_change_def handleIncomingMessage_def sample_message_def
        extract_text_def js_get_opt_def getOrCreateConversation_def find_active_def phone_get_def
        phone_set_def manager_init_def Let_def show_nat_250 show_nat_digit digit_char_def
        sample_provider_def push_message_def onMessageReceived.simps mcp_init_def
        normalizePhoneNumber_def is_digit_def)


subsection \<open>The first message from a number that is waited for\<close>




text \<open>
  Claim C5. A registration followed at once by an inbound message from a sender with the
  same normalized number settles the waiter with exactly the text of the message, and
  the key has no entry afterwards (its timer is cleared). An inbound message for a key
  that has no entry changes nothing and throws nothing.
\<close>

theorem register_then_resolve:
  "(normalizePhoneNumber sender = normalizePhoneNumber phone \<longrightarrow>
      (case register phone timeoutMs t0 s of
         (w, s1) \<Rightarrow>
           (case onMessageReceived now (JStr sender) T cid s1 of
              (thrown, s2) \<Rightarrow>
                thrown = None \<and> outcome_of s2 w = Some (now, Resolved T)
                \<and> pendingResponses s2 (normalizePhoneNumber phone) = None
                \<and> \<not> timer_pending s2 w)))
   \<and> (pendingResponses s (normalizePhoneNumber sender) = None \<longrightarrow>
        onMessageReceived now (JStr sender) T cid s = (None, s))"
proof (intro conjI impI)
  assume eq: "normalizePhoneNumber sender = normalizePhoneNumber phone"
  define w where "w = length (waiters s)"
  define s1 where "s1 = snd (register phone timeoutMs t0 s)"
  have reg: "register phone timeoutMs t0 s = (w, s1)"
    unfolding w_def s1_def by (rule register_eq)
  have tbl: "pendingResponses s1 (normalizePhoneNumber sender) = Some w"
    by (simp add: s1_def w_def register_pending eq)
  have len: "w < length (waiters s1)"
    by (simp add: s1_def w_def register_length)
  have fresh: "outcome_of s1 w = None"
    by (simp add: s1_def w_def outcome_of_register outcome_of_beyond)
  show "case register phone timeoutMs t0 s of
         (w, s1) \<Rightarrow>
           (case onMessageReceived now (JStr sender) T cid s1 of
              (thrown, s2) \<Rightarrow>
                thrown = None \<and> outcome_of s2 w = Some (now, Resolved T)
                \<and> pendingResponses s2 (normalizePhoneNumber phone) = None
                \<and> \<not> timer_pending s2 w)"
    using len fresh
    by (simp add: reg onMessage_hit [OF tbl] outcome_of_settle timer_pending_clearTimeout
          eq [symmetric])
next
  assume "pendingResponses s (normalizePhoneNumber sender) = None"
  then show "onMessageReceived now (JStr sender) T cid s = (None, s)"
    by (rule onMessage_miss)
qed

theorem register_then_resolve_witness:
  "normalizePhoneNumber ''15551234567'' = normalizePhoneNumber ''+1 (555) 123-4567''
   \<and> (case register ''+1 (555) 123-4567'' (Finite 60000) 100 mcp_init of
         (w, s1) \<Rightarrow>
           (case onMessageReceived 250 (JStr ''15551234567'') ''yes'' [] s1 of
              (thrown, s2) \<Rightarrow>
                thrown = None \<and> outcome_of s2 w = Some (250, Resolved ''yes'')
                \<and> pendingResponses s2 (normalizePhoneNumber ''+1 (555) 123-4567'') = None
                \<and> \<not> timer_pending s2 w))
   \<and> pendingResponses mcp_init (normalizePhoneNumber ''15551234567'') = None
   \<and> onMessageReceived 250 (JStr ''15551234567'') ''yes'' [] mcp_init = (None, mcp_init)"
  using register_then_resolve [where sender = "''15551234567''" and phone = "''+1 (555) 123-4567''"
      and timeoutMs = "Finite 60000" and ?t0.0 = 100 and s = mcp_init and now = 250 and T = "''yes''" and cid = "[]"]
  by (simp add: normalizePhoneNumber_def is_digit_def mcp_init_def onMessageReceived.simps)




text \<open>
  Claim C2. When a second wait is registered for the same normalized number while the
  first is still waiting, the table holds the second waiter and the timer of the first
  is still live. Whatever happens afterwards, the first waiter is never resolved with a
  reply: it stays unsettled until the clock reaches its own deadline, and from then on
  it is rejected with the timeout error, settled at that deadline, for good. The
  deadline is the time of the registration plus the delay \<^verbatim>\<open>setTimeout\<close> makes of the
  timeout given.
\<close>

theorem overwritten_wait_only_times_out:
  assumes "normalizePhoneNumber phoneB = normalizePhoneNumber phoneA" and "tB < tA + setTimeout_delay msA"
  shows "let s0 = exec prior mcp_init;
             w1 = length (waiters s0);
             s1 = exec [(tA, Wait phoneA msA)] s0;
             s2 = exec [(tA, Wait phoneA msA), (tB, Wait phoneB msB)] s0;
             s = exec evs s2
         in pendingResponses s1 (normalizePhoneNumber phoneA) = Some w1
            \<and> pendingResponses s2 (normalizePhoneNumber phoneA) = Some (Suc w1)
            \<and> timer_pending s2 w1 \<and> outcome_of s2 w1 = None
            \<and> (\<forall>t T. outcome_of s w1 \<noteq> Some (t, Resolved T))
            \<and> outcome_of s w1 =
                 (if \<exists>(t, e) \<in> set evs. tA + setTimeout_delay msA \<le> t
                  then Some (tA + setTimeout_delay msA, Rejected ''Timeout waiting for user reply'')
                  else None)"
proof -
  note f = two_waits [OF assms]
  have fin: "outcome_of (exec evs (exec [(tA, Wait phoneA msA), (tB, Wait phoneB msB)]
                 (exec prior mcp_init))) (length (waiters (exec prior mcp_init))) =
               (if \<exists>(t, e) \<in> set evs. tA + setTimeout_delay msA \<le> t
                then Some (tA + setTimeout_delay msA, Rejected ''Timeout waiting for user reply'')
                else None)"
    using orphan_exec [OF f(2), where evs = evs] unfolding f(3) .
  have never: "outcome_of (exec evs (exec [(tA, Wait phoneA msA), (tB, Wait phoneB msB)]
                 (exec prior mcp_init))) (length (waiters (exec prior mcp_init)))
               \<noteq> Some (t, Resolved T)" for t T
    unfolding fin by simp
  show ?thesis
    unfolding Let_def
    using f(10) f(1) f(2) fin never by (simp add: orphan_def)
qed

theorem overwritten_wait_only_times_out_witness:
  "normalizePhoneNumber ''15551234567'' = normalizePhoneNumber ''+1 555 123 4567''
   \<and> (10::nat) < 0 + setTimeout_delay (Finite 1000)
   \<and> (let s2 = exec [(0, Wait ''+1 555 123 4567'' (Finite 1000)), (10, Wait ''15551234567'' (Finite 5000))] mcp_init;
           s = exec [(500, Inbound (JStr ''15551234567'') ''yes''), (1200, Idle)] s2
       in pendingResponses s2 ''15551234567'' = Some 1
          \<and> outcome_of s2 0 = None
          \<and> outcome_of s 0 = Some (1000, Rejected ''Timeout waiting for user reply'')
          \<and> outcome_of s 1 = Some (500, Resolved ''yes''))"
proof -
  have h1: "normalizePhoneNumber ''15551234567'' = normalizePhoneNumber ''+1 555 123 4567''"
    by (simp add: normalizePhoneNumber_def is_digit_def)
  have h2: "(10::nat) < 0 + setTimeout_delay (Finite 1000)" by simp
  have k: "normalizePhoneNumber ''+1 555 123 4567'' = ''15551234567''"
    by (simp add: normalizePhoneNumber_def is_digit_def)
  have e0: "exec [] mcp_init = mcp_init" by (simp add: exec_def)
  have l0: "length (waiters mcp_init) = 0" by (simp add: mcp_init_def)
  note c = overwritten_wait_only_times_out [OF h1 h2, where prior = "[]" and msB = "Finite 5000"
      and evs = "[(500, Inbound (JStr ''15551234567'') ''yes''), (1200, Idle)]",
      unfolded Let_def e0 l0 k]
  have second: "outcome_of (exec [(500, Inbound (JStr ''15551234567'') ''yes''), (1200, Idle)]
      (exec [(0, Wait ''+1 555 123 4567'' (Finite 1000)), (10, Wait ''15551234567'' (Finite 5000))] mcp_init)) 1
      = Some (500, Resolved ''yes'')"
    by (simp add: exec_def mcp_init_def run_timers_def due_def register_def Let_def
          normalizePhoneNumber_def is_digit_def onMessageReceived.simps settle_def clearTimeout_def
          timeout_handler_def outcome_of_def)
  show ?thesis
    unfolding Let_def using h1 h2 c second by simp
qed






text \<open>
  Claim C4, as the code has it. A POST delivery that passes the signature check and
  whose body parses is answered with 200 when the processing of the event throws
  nothing, and with 400 when it throws. It throws nothing for an event of the
  provider's format, however many of its messages are skipped for their kind or for
  having no text; and what \<^verbatim>\<open>markAsRead\<close> returns or throws changes neither the answer
  nor the state, for any event.
\<close>

theorem parsed_delivery_acknowledged:
  assumes "validateMetaWhatsAppSignature appSecret signature body"
      and "JSON_parse body = Inr event"
  shows "(shaped_event event \<longrightarrow>
            fst (handleWhatsAppWebhook_POST appSecret whatsapp (Some (onMessageReceived now))
                   JSON_parse now signature body st) = Response 200 ''OK'')
       \<and> handleWhatsAppWebhook_POST appSecret (whatsapp\<lparr>provider_markAsRead := f\<rparr>) cb
             JSON_parse now signature body st
           = handleWhatsAppWebhook_POST appSecret whatsapp cb JSON_parse now signature body st
       \<and> fst (handleWhatsAppWebhook_POST appSecret whatsapp cb JSON_parse now signature body st)
           = (if fst (processWhatsAppEvent whatsapp cb now event st) = None
              then Response 200 ''OK'' else Response 400 ''Invalid request'')"
proof (intro conjI impI)
  assume "shaped_event event"
  then have "fst (processWhatsAppEvent whatsapp (Some (onMessageReceived now)) now event st) = None"
    by (rule processWhatsAppEvent_shaped)
  then show "fst (handleWhatsAppWebhook_POST appSecret whatsapp (Some (onMessageReceived now))
                   JSON_parse now signature body st) = Response 200 ''OK''"
    by (cases "processWhatsAppEvent whatsapp (Some (onMessageReceived now)) now event st")
       (simp add: handleWhatsAppWebhook_POST_def assms)
next
  show "handleWhatsAppWebhook_POST appSecret (whatsapp\<lparr>provider_markAsRead := f\<rparr>) cb
             JSON_parse now signature body st
           = handleWhatsAppWebhook_POST appSecret whatsapp cb JSON_parse now signature body st"
    unfolding handleWhatsAppWebhook_POST_def processWhatsAppEvent_markAsRead ..
next
  show "fst (handleWhatsAppWebhook_POST appSecret whatsapp cb JSON_parse now signature body st)
           = (if fst (processWhatsAppEvent whatsapp cb now event st) = None
              then Response 200 ''OK'' else Response 400 ''Invalid request'')"
    by (cases "processWhatsAppEvent whatsapp cb now event st")
       (auto simp: handleWhatsAppWebhook_POST_def assms split: option.splits)
qed

theorem parsed_delivery_acknowledged_witness:
  "validateMetaWhatsAppSignature (units ''app-secret'')
     (Some (units ''sha256=6c309aa74230462f0e2fb1b5df6e06afb6774b4fb8454d6c46d4063024969c2a''))
     delivery_body
   \<and> sample_parse delivery_body = Inr delivery_event
   \<and> shaped_event delivery_event
   \<and> fst (handleWhatsAppWebhook_POST (units ''app-secret'') sample_provider
            (Some (onMessageReceived 250)) sample_parse 250
            (Some (units ''sha256=6c309aa74230462f0e2fb1b5df6e06afb6774b4fb8454d6c46d4063024969c2a''))
            delivery_body (manager_init, mcp_init)) = Response 200 ''OK''"
proof -
  note c = parsed_delivery_acknowledged [where JSON_parse = sample_parse
      and whatsapp = sample_provider and now = 250 and st = "(manager_init, mcp_init)",
      OF delivery_body_signed sample_parse_delivery]
  show ?thesis
    using delivery_body_signed sample_parse_delivery delivery_event_shaped c by blast
qed


text \<open>
  Claim C4 as it is stated fails: a delivery with a valid signature whose body parses, with
  \<^verbatim>\<open>null\<close> as the second of its two messages, is answered with 400. The handler throws
  at the second message, after the first has been handled: its text is in the history
  of the conversation.
\<close>

theorem failed_sub_entry_answered_400:
  "validateMetaWhatsAppSignature (units ''app-secret'')
     (Some (units ''sha256=ef13a88a88d7d194ad58aeabc3c878020fe276a8c9b6797c464e7bd5f75db259''))
     batch_body
   \<and> sample_parse batch_body = Inr batch_event
   \<and> handleWhatsAppWebhook_POST (units ''app-secret'') sample_provider
        (Some (onMessageReceived 250)) sample_parse 250
        (Some (units ''sha256=ef13a88a88d7d194ad58aeabc3c878020fe276a8c9b6797c464e7bd5f75db259''))
        batch_body (manager_init, mcp_init)
      = (Response 400 ''Invalid request'',
         \<lparr>activeConversations =
            [(''conv-1-250'',
              \<lparr>conversationId = ''conv-1-250'', userPhoneNumber = JStr ''15551234567'',
               messageHistory = [\<lparr>role = User, msg_text = ''yes'',
                                   timestamp = ParsedSeconds (JStr ''1700000000'')\<rparr>],
               startTime = At 250, lastMessageAt = ParsedSeconds (JStr ''1700000000''),
               active = True\<rparr>)],
          phoneToConversationId = [JStr ''15551234567'' \<mapsto> ''conv-1-250''],
          currentConversationId = 1\<rparr>,
         mcp_init)"
  by (simp add: handleWhatsAppWebhook_POST_def batch_body_signed sample_parse_batch
        batch_event_result)

text \<open>
  Claim C6. A POST delivery whose signature does not verify is answered with 401, and
  the registry and the pending-reply table are exactly as before. The answer does not
  depend on what \<^verbatim>\<open>JSON.parse\<close> would make of the body: the body is not parsed.
\<close>

theorem bad_signature_rejected_unprocessed:
  "\<not> validateMetaWhatsAppSignature appSecret signature body \<Longrightarrow>
   handleWhatsAppWebhook_POST appSecret whatsapp cb JSON_parse now signature body st
     = (Response 401 ''Invalid signature'', st)"
  by (simp add: handleWhatsAppWebhook_POST_def)

theorem bad_signature_rejected_unprocessed_witness:
  "\<not> validateMetaWhatsAppSignature (units ''app-secret'') None
         (units ''{\"object\":\"whatsapp_business_account\"}'')
   \<and> handleWhatsAppWebhook_POST (units ''app-secret'')
         \<lparr>provider_sendMessage = (\<lambda>to msg. Inr ''wamid.1''),
          provider_markAsRead = (\<lambda>messageId. Inr ())\<rparr>
         (Some (onMessageReceived 7))
         (\<lambda>body. Inr (JObj [(''object'', JStr ''whatsapp_business_account'')])) 7 None
         (units ''{\"object\":\"whatsapp_business_account\"}'') (manager_init, mcp_init)
       = (Response 401 ''Invalid signature'', manager_init, mcp_init)"
  using bad_signature_rejected_unprocessed [OF validate_missing,
      where appSecret = "units ''app-secret''"
        and body = "units ''{\"object\":\"whatsapp_business_account\"}''"]
  by (simp add: validate_missing)






text \<open>
  Claim C8. Two calls of \<^verbatim>\<open>getOrCreateConversation\<close> in succession with the same raw phone
  number string return the same conversation id. After the first call the number is
  mapped to the id it returned, and that conversation is in the registry and active;
  the second call finds it by the lookup of the first lines, returns its id and leaves
  the registry as it is: it creates nothing.
\<close>

theorem getOrCreate_twice_same_id:
  "case getOrCreateConversation (JStr phone) now m of
     (cid1, m1) \<Rightarrow>
       find_active m1 (JStr phone) = Some cid1
       \<and> phoneToConversationId m1 (JStr phone) = Some cid1
       \<and> map_option active (map_of (activeConversations m1) cid1) = Some True
       \<and> (case getOrCreateConversation (JStr phone) now' m1 of
            (cid2, m2) \<Rightarrow> cid2 = cid1 \<and> m2 = m1)"
proof -
  obtain cid1 m1 where g: "getOrCreateConversation (JStr phone) now m = (cid1, m1)"
    by (cases "getOrCreateConversation (JStr phone) now m")
  have found: "find_active m1 (JStr phone) = Some cid1"
  proof (cases "find_active m (JStr phone)")
    case (Some cid)
    with g show ?thesis by (simp add: find_active_reuse)
  next
    case None
    then show ?thesis using g by (intro find_active_created) simp_all
  qed
  then have mapped: "phoneToConversationId m1 (JStr phone) = Some cid1"
    and there: "map_option active (map_of (activeConversations m1) cid1) = Some True"
    by (auto simp: find_active_def phone_get_def split: option.splits if_splits)
  show ?thesis
    using found mapped there by (simp add: g find_active_reuse)
qed

text \<open>
  Claim C9. The timeout handler deletes the entry of its key whoever holds it. After a
  second wait has overwritten the first, the timer of the first fires at its deadline
  while the second waiter holds the entry: the entry is deleted and the second waiter
  is left waiting. An inbound message from that number then finds no entry and changes
  nothing; whatever happens later, the second waiter is never resolved with a reply and
  is rejected with the timeout error when the clock reaches its own deadline. Each
  deadline is the time of the registration plus the delay \<^verbatim>\<open>setTimeout\<close> makes of the
  timeout given.
\<close>

theorem stale_timeout_deletes_newer_entry:
  assumes "normalizePhoneNumber phoneB = normalizePhoneNumber phoneA"
      and "tB < tA + setTimeout_delay msA" and "tA + setTimeout_delay msA \<le> t" and "t < tB + setTimeout_delay msB"
  shows "let k = normalizePhoneNumber phoneA;
             s0 = exec prior mcp_init;
             w1 = length (waiters s0);
             w2 = Suc w1;
             s2 = exec [(tA, Wait phoneA msA), (tB, Wait phoneB msB)] s0;
             s3 = exec [(t, Idle)] s2;
             s = exec evs s3
         in pendingResponses s2 k = Some w2
            \<and> pendingResponses (timeout_handler w1 s2) k = None
            \<and> outcome_of s3 w1 = Some (tA + setTimeout_delay msA, Rejected ''Timeout waiting for user reply'')
            \<and> pendingResponses s3 k = None
            \<and> outcome_of s3 w2 = None \<and> timer_pending s3 w2
            \<and> (\<forall>sender T now cid. normalizePhoneNumber sender = k \<longrightarrow>
                   onMessageReceived now (JStr sender) T cid s3 = (None, s3))
            \<and> (\<forall>t' T. outcome_of s w2 \<noteq> Some (t', Resolved T))
            \<and> outcome_of s w2 =
                 (if \<exists>(t', e) \<in> set evs. tB + setTimeout_delay msB \<le> t'
                  then Some (tB + setTimeout_delay msB, Rejected ''Timeout waiting for user reply'')
                  else None)"
proof -
  define k where "k = normalizePhoneNumber phoneA"
  define w1 where "w1 = length (waiters (exec prior mcp_init))"
  define s2 where "s2 = exec [(tA, Wait phoneA msA), (tB, Wait phoneB msB)] (exec prior mcp_init)"
  define s3 where "s3 = exec [(t, Idle)] s2"
  note f = two_waits(1-9) [OF assms(1,2), where prior = prior and msB = msB, folded k_def w1_def s2_def]
  have o1: "orphan s2 w1" by (rule f(2))
  have w1_lt: "w1 < length (waiters s2)" using o1 by (simp add: orphan_def)
  have s3: "s3 = run_timers t s2" by (simp add: s3_def exec_one)
  have del: "pendingResponses (timeout_handler w1 s2) k = None"
    using w1_lt by (simp add: pending_timeout_handler f(4))
  have out1: "outcome_of s3 w1 = Some (tA + setTimeout_delay msA, Rejected ''Timeout waiting for user reply'')"
    using o1 assms(3) by (simp add: s3 outcome_of_run_timers orphan_def f(3))
  have gone: "pendingResponses s3 k = None"
  proof -
    have "timer_pending s2 w1 \<and> deadline (waiters s2 ! w1) \<le> t \<and> wkey (waiters s2 ! w1) = k"
      using o1 assms(3) by (simp add: orphan_def f(3) f(4))
    then show ?thesis unfolding s3 pending_run_timers by auto
  qed
  have out2: "outcome_of s3 (Suc w1) = None"
    using assms(4) by (simp add: s3 outcome_of_run_timers f(6) f(8))
  have live2: "timer_pending s3 (Suc w1)"
    using assms(4) by (simp add: s3 timer_pending_run_timers f(6) f(7))
  have notin: "pendingResponses s3 k' \<noteq> Some (Suc w1)" for k'
  proof (cases "k' = k")
    case True
    then show ?thesis by (simp add: gone)
  next
    case False
    then have "pendingResponses s2 k' \<noteq> Some (Suc w1)" by (rule f(9))
    then show ?thesis by (simp add: s3 pending_run_timers)
  qed
  have o2: "orphan s3 (Suc w1)"
    using out2 live2 notin by (simp add: orphan_def s3 f(5))
  have d2: "deadline (waiters s3 ! Suc w1) = tB + setTimeout_delay msB"
    by (simp add: s3 f(6))
  have miss: "onMessageReceived now (JStr sender) T cid s3 = (None, s3)"
    if "normalizePhoneNumber sender = k" for sender T now cid
    using gone that by (intro onMessage_miss) simp
  have fin: "outcome_of (exec evs s3) (Suc w1) =
               (if \<exists>(t', e) \<in> set evs. tB + setTimeout_delay msB \<le> t'
                then Some (tB + setTimeout_delay msB, Rejected ''Timeout waiting for user reply'')
                else None)"
    using orphan_exec [OF o2, where evs = evs] unfolding d2 .
  have never: "outcome_of (exec evs s3) (Suc w1) \<noteq> Some (t', Resolved T)" for t' T
    unfolding fin by simp
  show ?thesis
    unfolding Let_def
    using f(1) del out1 gone out2 live2 miss fin never
    by (simp add: k_def w1_def s2_def s3_def)
qed


theorem stale_timeout_deletes_newer_entry_witness:
  "normalizePhoneNumber ''15551234567'' = normalizePhoneNumber ''+1 555 123 4567''
   \<and> (10::nat) < 0 + setTimeout_delay (Finite 1000)
   \<and> (0::nat) + setTimeout_delay (Finite 1000) \<le> 1500
   \<and> (1500::nat) < 10 + setTimeout_delay (Finite 5000)
   \<and> (let s2 = exec [(0, Wait ''+1 555 123 4567'' (Finite 1000)), (10, Wait ''15551234567'' (Finite 5000))] mcp_init;
           s3 = exec [(1500, Idle)] s2;
           s = exec [(2000, Inbound (JStr ''15551234567'') ''yes''), (6000, Idle)] s3
       in pendingResponses s2 ''15551234567'' = Some 1
          \<and> pendingResponses s3 ''15551234567'' = None
          \<and> outcome_of s3 0 = Some (1000, Rejected ''Timeout waiting for user reply'')
          \<and> outcome_of s3 1 = None
          \<and> onMessageReceived 2000 (JStr ''15551234567'') ''yes'' [] s3 = (None, s3)
          \<and> outcome_of s 1 = Some (5010, Rejected ''Timeout waiting for user reply''))"
proof -
  have h1: "normalizePhoneNumber ''15551234567'' = normalizePhoneNumber ''+1 555 123 4567''"
    by (simp add: normalizePhoneNumber_def is_digit_def)
  have h2: "(10::nat) < 0 + setTimeout_delay (Finite 1000)" by simp
  have h3: "(0::nat) + setTimeout_delay (Finite 1000) \<le> 1500" by simp
  have h4: "(1500::nat) < 10 + setTimeout_delay (Finite 5000)" by simp
  have k: "normalizePhoneNumber ''+1 555 123 4567'' = ''15551234567''"
    by (simp add: normalizePhoneNumber_def is_digit_def)
  have k': "normalizePhoneNumber ''15551234567'' = ''15551234567''"
    by (simp add: normalizePhoneNumber_def is_digit_def)
  have e0: "exec [] mcp_init = mcp_init" by (simp add: exec_def)
  have l0: "length (waiters mcp_init) = 0" by (simp add: mcp_init_def)
  note c = stale_timeout_deletes_newer_entry [OF h1 h2 h3 h4, where prior = "[]"
      and evs = "[(2000, Inbound (JStr ''15551234567'') ''yes''), (6000, Idle)]",
      unfolded Let_def e0 l0 k]
  show ?thesis
    unfolding Let_def using h1 h2 h3 h4 c k' by simp
qed


text \<open>
  Claim C10. \<^verbatim>\<open>sendMessage\<close> touches the history only after the provider has sent. When
  the provider throws, the error is passed to the caller and the registry is as
  \<^verbatim>\<open>getOrCreateConversation\<close> left it: unchanged altogether when the number had an
  active conversation, and otherwise with the conversation just created, its history
  empty. When the provider returns a message id, exactly one entry of role claude is
  appended to the history of the conversation, its last activity is set to the time of
  the call, and no other conversation changes.
\<close>

theorem sendMessage_appends_after_send:
  "case getOrCreateConversation (JStr phone) now m of
     (cid, m1) \<Rightarrow>
       (\<forall>error. provider_sendMessage whatsapp phone msg = Inl error \<longrightarrow>
          sendMessage whatsapp phone msg now m = (Inl error, m1))
       \<and> (\<forall>error. provider_sendMessage whatsapp phone msg = Inl error \<longrightarrow>
            find_active m (JStr phone) \<noteq> None \<longrightarrow>
            sendMessage whatsapp phone msg now m = (Inl error, m))
       \<and> (\<forall>messageId. provider_sendMessage whatsapp phone msg = Inr messageId \<longrightarrow>
            (case sendMessage whatsapp phone msg now m of
               (result, m2) \<Rightarrow>
                 result = Inr (cid, messageId)
                 \<and> history_of m2 cid
                     = history_of m1 cid @ [\<lparr>role = Claude, msg_text = msg, timestamp = At now\<rparr>]
                 \<and> lastMessageAt_of m2 cid = Some (At now)
                 \<and> (\<forall>c. c \<noteq> cid \<longrightarrow>
                       map_of (activeConversations m2) c = map_of (activeConversations m1) c)))"
proof -
  obtain cid m1 where g: "getOrCreateConversation (JStr phone) now m = (cid, m1)"
    by (cases "getOrCreateConversation (JStr phone) now m")
  obtain state where st: "map_of (activeConversations m1) cid = Some state"
    using getOrCreate_present [OF g] by blast
  have reuse: "m1 = m" if "find_active m (JStr phone) \<noteq> None"
    using that g by (auto simp: find_active_reuse)
  show ?thesis
    using reuse
    by (auto simp: g sendMessage_def history_of_push [OF st] lastMessageAt_push [OF st]
          push_message_others)
qed



theorem sendMessage_appends_after_send_witness:
  "(let failing = \<lparr>provider_sendMessage = (\<lambda>to msg. Inl (Error ''Meta API error: Bad Request'')),
                     provider_markAsRead = (\<lambda>messageId. Inr ())\<rparr>;
        sending = \<lparr>provider_sendMessage = (\<lambda>to msg. Inr ''wamid.1''),
                     provider_markAsRead = (\<lambda>messageId. Inr ())\<rparr>;
        m1 = snd (getOrCreateConversation (JStr ''+15551234567'') 5 manager_init)
    in provider_sendMessage failing ''+15551234567'' ''done'' = Inl (Error ''Meta API error: Bad Request'')
       \<and> sendMessage failing ''+15551234567'' ''done'' 5 manager_init
            = (Inl (Error ''Meta API error: Bad Request''), m1)
       \<and> find_active m1 (JStr ''+15551234567'') \<noteq> None
       \<and> sendMessage failing ''+15551234567'' ''done'' 9 m1
            = (Inl (Error ''Meta API error: Bad Request''), m1)
       \<and> provider_sendMessage sending ''+15551234567'' ''done'' = Inr ''wamid.1''
       \<and> fst (sendMessage sending ''+15551234567'' ''done'' 5 manager_init)
            = Inr (''conv-1-5'', ''wamid.1'')
       \<and> history_of (snd (sendMessage sending ''+15551234567'' ''done'' 5 manager_init)) ''conv-1-5''
            = [\<lparr>role = Claude, msg_text = ''done'', timestamp = At 5\<rparr>])"
proof -
  define failing where "failing = \<lparr>provider_sendMessage = (\<lambda>to msg. Inl (Error ''Meta API error: Bad Request'')),
                     provider_markAsRead = (\<lambda>messageId :: jsval. Inr ())\<rparr>"
  define sending where "sending = \<lparr>provider_sendMessage = (\<lambda>to msg. Inr ''wamid.1''),
                     provider_markAsRead = (\<lambda>messageId :: jsval. Inr ())\<rparr>"
  define m1 where "m1 = snd (getOrCreateConversation (JStr ''+15551234567'') 5 manager_init)"
  have g: "getOrCreateConversation (JStr ''+15551234567'') 5 manager_init = (''conv-1-5'', m1)"
    by (simp add: m1_def getOrCreate_first)
  have fails: "provider_sendMessage failing ''+15551234567'' ''done'' = Inl (Error ''Meta API error: Bad Request'')"
    by (simp add: failing_def)
  have sends: "provider_sendMessage sending ''+15551234567'' ''done'' = Inr ''wamid.1''"
    by (simp add: sending_def)
  have found: "find_active m1 (JStr ''+15551234567'') = Some ''conv-1-5''"
    by (simp add: m1_def getOrCreate_first find_active_def phone_get_def)
  have g': "getOrCreateConversation (JStr ''+15551234567'') 9 m1 = (''conv-1-5'', m1)"
    using found by (rule find_active_reuse)
  have h0: "history_of m1 ''conv-1-5'' = []"
    by (simp add: m1_def getOrCreate_first history_of_def)
  note a = sendMessage_appends_after_send [where phone = "''+15551234567''" and now = 5
      and m = manager_init and whatsapp = failing and msg = "''done''", unfolded g, simplified]
  note b = sendMessage_appends_after_send [where phone = "''+15551234567''" and now = 9
      and m = m1 and whatsapp = failing and msg = "''done''", unfolded g', simplified]
  note c = sendMessage_appends_after_send [where phone = "''+15551234567''" and now = 5
      and m = manager_init and whatsapp = sending and msg = "''done''", unfolded g, simplified]
  show ?thesis
    unfolding Let_def failing_def [symmetric] sending_def [symmetric] m1_def [symmetric]
    using a b c fails sends found h0
    by (auto split: prod.splits)
qed


end
